theory Spec2Isabelle
  imports Complex_Main "HOL-Library.Word"
begin

section \<open>JavaScript values\<close>

text \<open>
  A JavaScript string is a sequence of UTF-16 code units; \<open>js\<close> turns an ASCII literal
  into one.  Numbers are modelled as exact integers together with the three non-finite
  values a division or a failed parse can produce (doubles agree with the exact integers
  below \<open>2^53\<close>); signed zeros are not distinguished.
\<close>

type_synonym jsstring = "nat list"

definition js :: "string \<Rightarrow> jsstring" where
  "js s = map of_char s"

datatype jsnum = NaN | PosInf | NegInf | Fin int

fun js_neg :: "jsnum \<Rightarrow> jsnum" where
  "js_neg NaN = NaN"
| "js_neg PosInf = NegInf"
| "js_neg NegInf = PosInf"
| "js_neg (Fin a) = Fin (- a)"

fun js_add :: "jsnum \<Rightarrow> jsnum \<Rightarrow> jsnum" where
  "js_add (Fin a) (Fin b) = Fin (a + b)"
| "js_add NaN _ = NaN"
| "js_add _ NaN = NaN"
| "js_add PosInf NegInf = NaN"
| "js_add NegInf PosInf = NaN"
| "js_add PosInf _ = PosInf"
| "js_add NegInf _ = NegInf"
| "js_add (Fin a) b = b"

definition js_sub :: "jsnum \<Rightarrow> jsnum \<Rightarrow> jsnum" where
  "js_sub a b = js_add a (js_neg b)"

fun js_sign :: "jsnum \<Rightarrow> int" where
  "js_sign NaN = 0"
| "js_sign PosInf = 1"
| "js_sign NegInf = - 1"
| "js_sign (Fin a) = sgn a"

definition js_mul :: "jsnum \<Rightarrow> jsnum \<Rightarrow> jsnum" where
  "js_mul a b =
     (case (a, b) of
        (Fin x, Fin y) \<Rightarrow> Fin (x * y)
      | _ \<Rightarrow>
          if a = NaN \<or> b = NaN \<or> js_sign a * js_sign b = 0 then NaN
          else if js_sign a * js_sign b > 0 then PosInf else NegInf)"

text \<open>\<open>a >= b\<close>: false as soon as one side is \<open>NaN\<close>.\<close>

fun js_ge :: "jsnum \<Rightarrow> jsnum \<Rightarrow> bool" where
  "js_ge NaN _ = False"
| "js_ge _ NaN = False"
| "js_ge (Fin a) (Fin b) = (a \<ge> b)"
| "js_ge PosInf _ = True"
| "js_ge _ NegInf = True"
| "js_ge _ _ = False"

definition js_gt :: "jsnum \<Rightarrow> jsnum \<Rightarrow> bool" where
  "js_gt a b = (js_ge a b \<and> a \<noteq> b)"

text \<open>\<open>Math.min(a, b)\<close>.\<close>

fun Math_min :: "jsnum \<Rightarrow> jsnum \<Rightarrow> jsnum" where
  "Math_min NaN _ = NaN"
| "Math_min _ NaN = NaN"
| "Math_min a b = (if js_ge a b then b else a)"

text \<open>
  \<open>Math.ceil(a / b)\<close> for integers \<open>a\<close> and \<open>b\<close>: the exact ceiling of the quotient, and
  for \<open>b = 0\<close> what the division gives in JavaScript (\<open>NaN\<close> for \<open>0 / 0\<close>, an infinity
  otherwise), on which \<open>Math.ceil\<close> is the identity.
\<close>

definition Math_ceil_div :: "int \<Rightarrow> int \<Rightarrow> jsnum" where
  "Math_ceil_div a b =
     (if b = 0 then (if a = 0 then NaN else if a > 0 then PosInf else NegInf)
      else Fin (- ((- a) div b)))"

section \<open>The load-in overlay (src/components/LoadInOverlay.tsx)\<close>

subsection \<open>Grid geometry\<close>

definition getColumnCount :: "int \<Rightarrow> int" where
  "getColumnCount w = (if w < 640 then 8 else if w < 1024 then 12 else 16)"

text \<open>
  Every field of \<open>GridSpec\<close> is a JavaScript number.  \<open>cols\<close>, \<open>blockW\<close>, \<open>blockH\<close> and
  \<open>vh\<close> are always finite integers; \<open>rows\<close> is the quotient by \<open>blockH\<close>, which can be
  zero, so it keeps the full number type.
\<close>

record GridSpec =
  cols :: int
  rows :: jsnum
  blockW :: int
  blockH :: int
  vh :: int

text \<open>
  \<open>computeGrid\<close> reads \<open>window.innerWidth\<close> and \<open>window.innerHeight\<close>, which are
  non-negative integers; they are the two arguments here.  \<open>Math.ceil(w / cols)\<close> is
  finite because \<open>cols\<close> is 8, 12 or 16.
\<close>

definition computeGrid :: "nat \<Rightarrow> nat \<Rightarrow> GridSpec" where
  "computeGrid w h =
     (let cols = getColumnCount (int w);
          blockW = - ((- int w) div cols);
          blockH = blockW;
          rows = js_add (Math_ceil_div (int h) blockH) (Fin 1)
      in \<lparr>cols = cols, rows = rows, blockW = blockW, blockH = blockH, vh = int h\<rparr>)"

subsection \<open>The price odometer\<close>

record PriceChar =
  char :: nat
  isDigit :: bool

text \<open>\<open>price.split('')\<close> yields the code units; \<open>/[0-9]/\<close> matches the ASCII digits.\<close>

definition test_digit :: "nat \<Rightarrow> bool" where
  "test_digit c = (48 \<le> c \<and> c \<le> 57)"

definition parsePriceChars :: "jsstring \<Rightarrow> PriceChar list" where
  "parsePriceChars price = map (\<lambda>c. \<lparr>char = c, isDigit = test_digit c\<rparr>) price"

text \<open>
  What \<open>StockPriceOdometer\<close> returns for each character: a static \<open>span\<close> showing the
  character, or an \<open>OdometerDigit\<close> (an animated strip) with its digit, its
  \<open>digitIndex\<close> and whether the \<open>onComplete\<close> prop is the callback (\<open>True\<close>) or
  \<open>undefined\<close> (\<open>False\<close>).  The first field is the React key, the character's index.
\<close>

datatype element =
    StaticSpan nat nat
  | OdometerDigit nat nat nat bool

text \<open>
  The body of \<open>chars.map((c, i) => ...)\<close>: \<open>i\<close> is the index, \<open>digitIndex\<close> the mutable
  counter of the digits seen so far.
\<close>

fun map_chars :: "int \<Rightarrow> nat \<Rightarrow> nat \<Rightarrow> PriceChar list \<Rightarrow> element list" where
  "map_chars totalDigits i digitIndex [] = []"
| "map_chars totalDigits i digitIndex (c # cs) =
     (if \<not> isDigit c then StaticSpan i (char c) # map_chars totalDigits (i + 1) digitIndex cs
      else
        (let currentDigitIndex = digitIndex;
             isLast = (int currentDigitIndex = totalDigits - 1)
         in OdometerDigit i (char c) currentDigitIndex isLast
              # map_chars totalDigits (i + 1) (digitIndex + 1) cs))"

definition StockPriceOdometer :: "jsstring \<Rightarrow> element list" where
  "StockPriceOdometer price =
     (let chars = parsePriceChars price;
          totalDigits = int (length (filter isDigit chars))
      in map_chars totalDigits 0 0 chars)"

fun is_strip :: "element \<Rightarrow> bool" where
  "is_strip (OdometerDigit _ _ _ _) = True"
| "is_strip (StaticSpan _ _) = False"

fun has_onComplete :: "element \<Rightarrow> bool" where
  "has_onComplete (OdometerDigit _ _ _ cb) = cb"
| "has_onComplete (StaticSpan _ _) = False"

subsection \<open>The session flag (src/hooks/useSessionOnce.ts)\<close>

text \<open>
  \<open>sessionStorage\<close> is a map from keys to values, or \<open>None\<close> when the browser denies
  access to it (every access then throws).
\<close>

type_synonym storage = "(jsstring \<rightharpoonup> jsstring) option"

definition SESSION_KEY :: jsstring where
  "SESSION_KEY = js ''boet-load-overlay''"

text \<open>
  The effect of \<open>useSessionOnce\<close>: whether it calls \<open>setHasRun(true)\<close>.  A throwing
  \<open>getItem\<close> is caught and leaves \<open>hasRun\<close> at \<open>false\<close>.
\<close>

definition session_effect :: "jsstring \<Rightarrow> storage \<Rightarrow> bool" where
  "session_effect key st =
     (case st of None \<Rightarrow> False | Some m \<Rightarrow> m key = Some (js ''1''))"

text \<open>The storage half of \<open>markAsRun\<close>: \<open>setItem(key, '1')\<close>, silent when it throws.\<close>

definition setItem :: "jsstring \<Rightarrow> jsstring \<Rightarrow> storage \<Rightarrow> storage" where
  "setItem key v st = (case st of None \<Rightarrow> None | Some m \<Rightarrow> Some (m(key \<mapsto> v)))"

subsection \<open>The phase sequencer\<close>

text \<open>The string literals \<open>'intro'\<close>, ..., \<open>'done'\<close> of the type \<open>Phase\<close>.\<close>

datatype Phase = Intro | PriceRoll | DayChange | FadeText | Blocks | Done

text \<open>
  One constructor per \<open>setTimeout\<close> call of \<open>LoadInOverlay\<close>, named after the phase its
  callback sets: the four phase effects, the reduced-motion effect, and
  \<open>handlePriceRollComplete\<close> (\<open>T_dayChange\<close>).
\<close>

datatype timer = T_priceRoll | T_fadeText | T_blocks | T_done | T_reduced | T_dayChange

text \<open>The props that drive the sequencer (the others are only displayed).\<close>

record props =
  stockPrice :: jsstring
  forceReplay :: bool

text \<open>The browser: the viewport, and what \<open>useReducedMotion\<close> returns for this instance.\<close>

record browser =
  innerWidth :: nat
  innerHeight :: nat
  prefersReducedMotion :: bool

text \<open>
  The component instance: its React state (\<open>sessionPlayed\<close> is the \<open>hasRun\<close> state of
  \<open>useSessionOnce\<close>), the timers that are scheduled and neither fired nor cleared, the
  log of every \<open>setTimeout\<close> call made so far, the keys of the digit strips whose roll
  animation has completed, whether React has unmounted the component, and the session
  storage.
\<close>

record overlay =
  sessionPlayed :: bool
  mounted :: bool
  phase :: Phase
  grid :: "GridSpec option"
  timers :: "timer list"
  scheduled :: "timer list"
  finished :: "nat list"
  unmounted :: bool
  sessionStorage :: storage

definition shouldAnimate :: "props \<Rightarrow> overlay \<Rightarrow> bool" where
  "shouldAnimate p s = (mounted s \<and> (forceReplay p \<or> \<not> sessionPlayed s))"

text \<open>
  What the component returns: the plain colour \<open>div\<close> shown before hydration, \<open>null\<close>,
  the reduced-motion fade, or the full animation (is the text layer rendered; the
  odometer's elements when it is rendered; is the block grid rendered).  \<open>BlockGrid\<close>
  builds its \<open>rows * cols\<close> blocks in a loop, which does not end when \<open>rows\<close> is
  \<open>Infinity\<close> (a viewport of width 0 and positive height); the view does not represent
  that, so for such a viewport the executions below include steps the browser never
  reaches.
\<close>

datatype view =
    Placeholder
  | Null
  | ReducedFade
  | Animation bool "element list option" bool

definition render :: "props \<Rightarrow> browser \<Rightarrow> overlay \<Rightarrow> view" where
  "render p b s =
     (if \<not> mounted s then Placeholder
      else if \<not> shouldAnimate p s then Null
      else if phase s = Done then Null
      else if prefersReducedMotion b then ReducedFade
      else
        (let isTextPhase =
               (phase s = Intro \<or> phase s = PriceRoll \<or> phase s = DayChange \<or> phase s = FadeText)
         in Animation isTextPhase
              (if isTextPhase \<and> (phase s = PriceRoll \<or> phase s = DayChange \<or> phase s = FadeText)
               then Some (StockPriceOdometer (stockPrice p)) else None)
              (phase s = Blocks \<and> grid s \<noteq> None)))"

text \<open>
  A \<open>useEffect\<close> whose body is \<open>if (!cond) return; const t = setTimeout(...); return () =>
  clearTimeout(t)\<close>.  React runs it after a render when one of its dependencies has
  changed since the previous render (\<open>changed\<close>): first the cleanup of the previous run,
  which clears the timer, then the body.
\<close>

definition effect :: "timer \<Rightarrow> bool \<Rightarrow> bool \<Rightarrow> overlay \<Rightarrow> overlay" where
  "effect t changed cond s =
     (if \<not> changed then s
      else
        (let s1 = s\<lparr>timers := removeAll t (timers s)\<rparr>
         in if cond then s1\<lparr>timers := timers s1 @ [t], scheduled := scheduled s1 @ [t]\<rparr>
            else s1))"

text \<open>
  The five timer effects of \<open>LoadInOverlay\<close>, committed for the render with state \<open>cur\<close>;
  \<open>prev\<close> is the state of the previous render (\<open>None\<close> at the first render, where every
  effect runs).  The dependency arrays are \<open>[shouldAnimate, phase]\<close>, \<open>[phase]\<close>,
  \<open>[phase]\<close>, \<open>[phase, grid, markPlayed]\<close> and \<open>[shouldAnimate, prefersReducedMotion,
  markPlayed]\<close>; \<open>markPlayed\<close> and \<open>prefersReducedMotion\<close> never change.
\<close>

definition changed :: "overlay option \<Rightarrow> overlay \<Rightarrow> (overlay \<Rightarrow> 'a) \<Rightarrow> bool" where
  "changed prev cur deps = (case prev of None \<Rightarrow> True | Some old \<Rightarrow> deps old \<noteq> deps cur)"

definition run_effects :: "props \<Rightarrow> browser \<Rightarrow> overlay option \<Rightarrow> overlay \<Rightarrow> overlay" where
  "run_effects p b prev cur =
     (let s1 = effect T_priceRoll (changed prev cur (\<lambda>s. (shouldAnimate p s, phase s)))
                 (shouldAnimate p cur \<and> phase cur = Intro) cur;
          s2 = effect T_fadeText (changed prev cur phase) (phase cur = DayChange) s1;
          s3 = effect T_blocks (changed prev cur phase) (phase cur = FadeText) s2;
          s4 = effect T_done (changed prev cur (\<lambda>s. (phase s, grid s)))
                 (phase cur = Blocks \<and> grid cur \<noteq> None) s3;
          s5 = effect T_reduced
                 (changed prev cur (\<lambda>s. (shouldAnimate p s, prefersReducedMotion b)))
                 (shouldAnimate p cur \<and> prefersReducedMotion b) s4
      in s5)"

text \<open>
  A state update re-renders the component and commits its effects; React drops the
  update when the component is unmounted.
\<close>

definition rerender :: "props \<Rightarrow> browser \<Rightarrow> overlay \<Rightarrow> overlay \<Rightarrow> overlay" where
  "rerender p b old new = (if unmounted new then new else run_effects p b (Some old) new)"

definition setPhase :: "Phase \<Rightarrow> overlay \<Rightarrow> overlay" where
  "setPhase ph s = (if unmounted s then s else s\<lparr>phase := ph\<rparr>)"

definition markPlayed :: "overlay \<Rightarrow> overlay" where
  "markPlayed s =
     (let s1 = s\<lparr>sessionStorage := setItem SESSION_KEY (js ''1'') (sessionStorage s)\<rparr>
      in if unmounted s1 then s1 else s1\<lparr>sessionPlayed := True\<rparr>)"

text \<open>The callback passed to each \<open>setTimeout\<close>.\<close>

fun callback :: "timer \<Rightarrow> overlay \<Rightarrow> overlay" where
  "callback T_priceRoll s = setPhase PriceRoll s"
| "callback T_fadeText s = setPhase FadeText s"
| "callback T_blocks s = setPhase Blocks s"
| "callback T_done s = markPlayed (setPhase Done s)"
| "callback T_reduced s = markPlayed (setPhase Done s)"
| "callback T_dayChange s = setPhase DayChange s"

text \<open>\<open>handlePriceRollComplete\<close>: a \<open>setTimeout\<close> whose handle is dropped.\<close>

definition handlePriceRollComplete :: "overlay \<Rightarrow> overlay" where
  "handlePriceRollComplete s =
     s\<lparr>timers := timers s @ [T_dayChange], scheduled := scheduled s @ [T_dayChange]\<rparr>"

text \<open>
  The first render (all state at its initial value) and the commit that follows it.
  Every effect runs once with the values of the first render; the state updates made by
  the effect of \<open>useSessionOnce\<close> and by the mount effect are applied together, and the
  component renders again.
\<close>

definition first_render :: "storage \<Rightarrow> overlay" where
  "first_render st =
     \<lparr>sessionPlayed = False, mounted = False, phase = Intro, grid = None, timers = [],
      scheduled = [], finished = [], unmounted = False, sessionStorage = st\<rparr>"

definition mount :: "props \<Rightarrow> browser \<Rightarrow> storage \<Rightarrow> overlay" where
  "mount p b st =
     (let s0 = first_render st;
          s1 = run_effects p b None s0;
          s2 = (if session_effect SESSION_KEY st then s1\<lparr>sessionPlayed := True\<rparr> else s1);
          s3 = s2\<lparr>mounted := True, grid := Some (computeGrid (innerWidth b) (innerHeight b))\<rparr>
      in rerender p b s0 s3)"

text \<open>
  What can happen to a mounted overlay.  The model is untimed: a scheduled timer may fire
  at any moment, in any order with the others.
  \<^item> \<open>Fire t\<close>: the scheduled timer \<open>t\<close> fires and runs its callback.
  \<^item> \<open>StripDone k\<close>: the roll animation of the digit strip with key \<open>k\<close> completes.  A
    strip animates once, after it is mounted, and only while the odometer is rendered;
    its \<open>onAnimationComplete\<close> is the \<open>onComplete\<close> prop.
  \<^item> \<open>Unmount\<close>: React unmounts the component and runs the cleanup of every effect.
  The props are those of the render in which the event happens.
\<close>

datatype event = Fire timer | StripDone nat | Unmount

fun step :: "props \<Rightarrow> browser \<Rightarrow> event \<Rightarrow> overlay \<Rightarrow> overlay option" where
  "step p b (Fire t) s =
     (if t \<in> set (timers s)
      then Some (rerender p b s (callback t (s\<lparr>timers := remove1 t (timers s)\<rparr>)))
      else None)"
| "step p b (StripDone k) s =
     (case render p b s of
        Animation _ (Some elems) _ \<Rightarrow>
          if \<not> unmounted s \<and> k < length elems \<and> is_strip (elems ! k) \<and> k \<notin> set (finished s)
          then
            (let s1 = s\<lparr>finished := finished s @ [k]\<rparr>
             in Some (if has_onComplete (elems ! k) then handlePriceRollComplete s1 else s1))
          else None
      | _ \<Rightarrow> None)"
| "step p b Unmount s =
     (if unmounted s then None
      else Some (s\<lparr>unmounted := True,
                   timers := filter (\<lambda>t. t \<notin> {T_priceRoll, T_fadeText, T_blocks, T_done, T_reduced})
                               (timers s)\<rparr>))"

text \<open>An execution in which the parent never changes the props: the states visited, the
  first one included; \<open>None\<close> when an event of the list cannot happen in the state it
  meets.\<close>

fun trace :: "props \<Rightarrow> browser \<Rightarrow> event list \<Rightarrow> overlay \<Rightarrow> overlay list option" where
  "trace p b [] s = Some [s]"
| "trace p b (e # es) s =
     (case step p b e s of
        None \<Rightarrow> None
      | Some s' \<Rightarrow> map_option ((#) s) (trace p b es s'))"

definition run :: "props \<Rightarrow> browser \<Rightarrow> event list \<Rightarrow> overlay \<Rightarrow> overlay option" where
  "run p b es s = map_option last (trace p b es s)"

text \<open>
  An execution in which the parent re-renders the overlay with another \<open>stockPrice\<close>:
  every event comes with the price that is the prop when it happens.  A re-render that
  changes only this prop changes no state and no dependency of an effect, so it
  schedules and clears nothing; an element keeps its key (its index), a strip that was
  mounted before stays mounted and does not animate again, and a strip at a new key
  mounts and animates.  The strips are not followed beyond the first return to an
  earlier phase (where the odometer would mount again).
\<close>

fun trace_prices ::
  "props \<Rightarrow> browser \<Rightarrow> (jsstring \<times> event) list \<Rightarrow> overlay \<Rightarrow> overlay list option" where
  "trace_prices p b [] s = Some [s]"
| "trace_prices p b ((price, e) # es) s =
     (case step (p\<lparr>stockPrice := price\<rparr>) b e s of
        None \<Rightarrow> None
      | Some s' \<Rightarrow> map_option ((#) s) (trace_prices p b es s'))"

fun rank :: "Phase \<Rightarrow> nat" where
  "rank Intro = 0"
| "rank PriceRoll = 1"
| "rank DayChange = 2"
| "rank FadeText = 3"
| "rank Blocks = 4"
| "rank Done = 5"

section \<open>The static server (src/unnamed/part_000)\<close>

subsection \<open>String and number built-ins\<close>

text \<open>\<open>s.includes(sub)\<close>.\<close>

fun includes_js :: "jsstring \<Rightarrow> jsstring \<Rightarrow> bool" where
  "includes_js [] sub = (sub = [])"
| "includes_js (c # cs) sub = (take (length sub) (c # cs) = sub \<or> includes_js cs sub)"

text \<open>\<open>s.split(sep)\<close> for a separator of one code unit; the result is never empty.\<close>

fun split :: "nat \<Rightarrow> jsstring \<Rightarrow> jsstring list" where
  "split sep [] = [[]]"
| "split sep (c # cs) =
     (if c = sep then [] # split sep cs
      else (case split sep cs of [] \<Rightarrow> [[c]] | part # parts \<Rightarrow> (c # part) # parts))"

text \<open>\<open>xs[i]\<close>: \<open>undefined\<close> (\<open>None\<close>) out of range.\<close>

definition item :: "'a list \<Rightarrow> nat \<Rightarrow> 'a option" where
  "item xs i = (if i < length xs then Some (xs ! i) else None)"

text \<open>\<open>s.replace(/pat/, rep)\<close> for a literal pattern: the first occurrence only.\<close>

fun replace :: "jsstring \<Rightarrow> jsstring \<Rightarrow> jsstring \<Rightarrow> jsstring" where
  "replace pat rep [] = (if pat = [] then rep else [])"
| "replace pat rep (c # cs) =
     (if take (length pat) (c # cs) = pat then rep @ drop (length pat) (c # cs)
      else c # replace pat rep cs)"

text \<open>
  \<open>parseInt(s, 10)\<close>: leading white space and line terminators are skipped, then an
  optional sign, then the longest run of decimal digits; \<open>NaN\<close> when that run is empty.
  The result is the exact integer the digits denote.  JavaScript returns the nearest
  double, which is that integer up to \<open>2^53\<close> and may differ from it beyond; what is
  proved with \<open>parseInt\<close> below bounds its result by \<open>2^53\<close>.
\<close>

definition StrWhiteSpaceChar :: "nat \<Rightarrow> bool" where
  "StrWhiteSpaceChar c =
     (c \<in> {9, 10, 11, 12, 13, 32, 160, 5760, 8232, 8233, 8239, 8287, 12288, 65279}
      \<or> (8192 \<le> c \<and> c \<le> 8202))"

definition digits_value :: "jsstring \<Rightarrow> int" where
  "digits_value Z = foldl (\<lambda>acc d. 10 * acc + (int d - 48)) 0 Z"

definition parseInt :: "jsstring \<Rightarrow> jsnum" where
  "parseInt str =
     (let S = dropWhile StrWhiteSpaceChar str;
          sign = (if S \<noteq> [] \<and> hd S = 45 then - 1 else 1);
          S = (if S \<noteq> [] \<and> (hd S = 43 \<or> hd S = 45) then tl S else S);
          Z = takeWhile test_digit S
      in if Z = [] then NaN else Fin (sign * digits_value Z))"

text \<open>
  The digits of a natural number in a radix, lower case as \<open>Number.prototype.toString\<close>
  prints them.  The server calls it with the radices 10 and 16 only.
\<close>

definition digit_char :: "nat \<Rightarrow> nat" where
  "digit_char d = (if d < 10 then 48 + d else 87 + d)"

function radix_digits :: "nat \<Rightarrow> nat \<Rightarrow> jsstring" where
  "radix_digits radix n =
     (if n < radix \<or> radix < 2 then [digit_char n]
      else radix_digits radix (n div radix) @ [digit_char (n mod radix)])"
  by pat_completeness auto
termination
  by (relation "measure snd") auto

text \<open>
  \<open>String(x)\<close>, as a template literal applies it to a number.  An integer is printed
  in decimal notation, as JavaScript prints it below \<open>10^21\<close> (from there on JavaScript
  uses the exponent notation); what is proved with \<open>Number_toString\<close> below bounds its
  argument by \<open>2^53\<close>.
\<close>

definition Number_toString :: "jsnum \<Rightarrow> jsstring" where
  "Number_toString x =
     (case x of
        NaN \<Rightarrow> js ''NaN''
      | PosInf \<Rightarrow> js ''Infinity''
      | NegInf \<Rightarrow> js ''-Infinity''
      | Fin i \<Rightarrow> if i < 0 then 45 # radix_digits 10 (nat (- i)) else radix_digits 10 (nat i))"

subsection \<open>decodeURIComponent\<close>

text \<open>
  The \<open>Decode\<close> operation of ECMA-262 with an empty set of preserved escapes.  A
  malformed escape sequence raises \<open>URIError\<close>.
\<close>

datatype js_error = URIError

definition hex_value :: "nat \<Rightarrow> nat option" where
  "hex_value c =
     (if 48 \<le> c \<and> c \<le> 57 then Some (c - 48)
      else if 65 \<le> c \<and> c \<le> 70 then Some (c - 55)
      else if 97 \<le> c \<and> c \<le> 102 then Some (c - 87)
      else None)"

definition ParseHexOctet :: "nat \<Rightarrow> nat \<Rightarrow> nat option" where
  "ParseHexOctet h1 h2 =
     (case (hex_value h1, hex_value h2) of
        (Some a, Some b) \<Rightarrow> Some (16 * a + b)
      | _ \<Rightarrow> None)"

text \<open>The number of leading 1 bits of an octet (5 stands for five or more).\<close>

definition leading_ones :: "nat \<Rightarrow> nat" where
  "leading_ones B =
     (if B < 128 then 0 else if B < 192 then 1 else if B < 224 then 2
      else if B < 240 then 3 else if B < 248 then 4 else 5)"

text \<open>The \<open>j\<close> escapes \<open>%XX\<close> that must follow the first octet of a multi-byte sequence.\<close>

fun continuation_octets :: "nat \<Rightarrow> jsstring \<Rightarrow> nat list option" where
  "continuation_octets 0 s = Some []"
| "continuation_octets (Suc j) (p # h1 # h2 # rest) =
     (if p \<noteq> 37 then None
      else (case ParseHexOctet h1 h2 of
              None \<Rightarrow> None
            | Some B \<Rightarrow> map_option ((#) B) (continuation_octets j rest)))"
| "continuation_octets (Suc j) s = None"

text \<open>
  The code point a list of octets encodes in UTF-8, \<open>None\<close> when the list is not the
  valid (shortest, non-surrogate, at most \<open>0x10FFFF\<close>) encoding of one.
\<close>

definition is_continuation :: "nat \<Rightarrow> bool" where
  "is_continuation B = (128 \<le> B \<and> B < 192)"

fun utf8_code_point :: "nat list \<Rightarrow> nat option" where
  "utf8_code_point [b0, b1] =
     (let V = (b0 - 192) * 64 + (b1 - 128)
      in if is_continuation b1 \<and> 128 \<le> V then Some V else None)"
| "utf8_code_point [b0, b1, b2] =
     (let V = (b0 - 224) * 4096 + (b1 - 128) * 64 + (b2 - 128)
      in if is_continuation b1 \<and> is_continuation b2 \<and> 2048 \<le> V
            \<and> \<not> (55296 \<le> V \<and> V \<le> 57343)
         then Some V else None)"
| "utf8_code_point [b0, b1, b2, b3] =
     (let V = (b0 - 240) * 262144 + (b1 - 128) * 4096 + (b2 - 128) * 64 + (b3 - 128)
      in if is_continuation b1 \<and> is_continuation b2 \<and> is_continuation b3
            \<and> 65536 \<le> V \<and> V \<le> 1114111
         then Some V else None)"
| "utf8_code_point _ = None"

definition UTF16EncodeCodePoint :: "nat \<Rightarrow> jsstring" where
  "UTF16EncodeCodePoint V =
     (if V \<le> 65535 then [V]
      else [(V - 65536) div 1024 + 55296, (V - 65536) mod 1024 + 56320])"

fun decodeURIComponent :: "jsstring \<Rightarrow> js_error + jsstring" where
  "decodeURIComponent [] = Inr []"
| "decodeURIComponent (C # cs) =
     (if C \<noteq> 37 then map_sum id ((#) C) (decodeURIComponent cs)
      else
        (case cs of
           h1 # h2 # rest \<Rightarrow>
             (case ParseHexOctet h1 h2 of
                None \<Rightarrow> Inl URIError
              | Some B \<Rightarrow>
                  (let n = leading_ones B
                   in if n = 0 then map_sum id ((#) B) (decodeURIComponent rest)
                      else if n = 1 \<or> n > 4 then Inl URIError
                      else
                        (case continuation_octets (n - 1) rest of
                           None \<Rightarrow> Inl URIError
                         | Some Octets \<Rightarrow>
                             (case utf8_code_point (B # Octets) of
                                None \<Rightarrow> Inl URIError
                              | Some V \<Rightarrow>
                                  map_sum id ((@) (UTF16EncodeCodePoint V))
                                    (decodeURIComponent (drop (3 * (n - 1)) rest))))))
         | _ \<Rightarrow> Inl URIError))"

subsection \<open>Requests, files and responses\<close>

text \<open>The parts of \<open>req\<close> the handler reads; a header that is absent is \<open>None\<close>.\<close>

record request =
  url :: jsstring
  range :: "jsstring option"
  if_none_match :: "jsstring option"
  accept_encoding :: "jsstring option"

type_synonym bytes = "8 word list"

text \<open>
  The fields of \<open>fs.Stats\<close> the handler reads.  \<open>mtimeMs\<close> is a double that usually has a
  fractional part; it is kept as the rational number it denotes.
\<close>

record Stats =
  size :: nat
  mtimeMs :: rat

text \<open>
  The file system at the time of the request.  \<open>stat\<close> and \<open>readFile\<close> give \<open>None\<close> when
  the promise rejects (no such file; \<open>readFile\<close> on a directory).
\<close>

record filesystem =
  stat :: "jsstring \<Rightarrow> Stats option"
  readFile :: "jsstring \<Rightarrow> bytes option"

text \<open>
  \<open>fs.createReadStream(path, options)\<close>: whether the call returns a stream (\<open>True\<close>) or
  throws at once.  Before it opens the file, Node checks the \<open>{start, end}\<close> option when
  it is given: \<open>start\<close> must be an integer from 0 to \<open>Number.MAX_SAFE_INTEGER\<close>, so must
  \<open>end\<close> unless it is \<open>Infinity\<close>, and \<open>start\<close> must not exceed \<open>end\<close>; otherwise the call
  throws a \<open>RangeError\<close>.  The file is opened later, so a stream is returned whatever the
  path is.
\<close>

definition MAX_SAFE_INTEGER :: int where
  "MAX_SAFE_INTEGER = 2 ^ 53 - 1"

definition validateInteger :: "jsnum \<Rightarrow> bool" where
  "validateInteger x = (case x of Fin a \<Rightarrow> 0 \<le> a \<and> a \<le> MAX_SAFE_INTEGER | _ \<Rightarrow> False)"

definition createReadStream :: "(jsnum \<times> jsnum) option \<Rightarrow> bool" where
  "createReadStream options =
     (case options of
        None \<Rightarrow> True
      | Some (start, endpos) \<Rightarrow>
          validateInteger start
          \<and> (endpos = PosInf \<or> (validateInteger endpos \<and> js_ge endpos start)))"

text \<open>
  The library functions the handler calls and this development does not define:
  \<open>path.join(__dirname, url)\<close>, \<open>path.extname\<close>, the conversion of the double \<open>mtimeMs\<close>
  to a string in a radix, and the two compressors.
\<close>

record host =
  join_dirname :: "jsstring \<Rightarrow> jsstring"
  extname :: "jsstring \<Rightarrow> jsstring"
  mtime_toString :: "nat \<Rightarrow> rat \<Rightarrow> jsstring"
  brotliAsync :: "bytes \<Rightarrow> bytes"
  gzipAsync :: "bytes \<Rightarrow> bytes"

datatype fs_op =
    FsStat jsstring
  | FsReadFile jsstring
  | FsCreateReadStream jsstring "(jsnum \<times> jsnum) option"

text \<open>A header value is a string or a number; a headers object keeps insertion order.\<close>

datatype header_value = HStr jsstring | HNum jsnum

type_synonym headers = "(jsstring \<times> header_value) list"

definition set_header :: "jsstring \<Rightarrow> header_value \<Rightarrow> headers \<Rightarrow> headers" where
  "set_header k v hs =
     (if k \<in> fst ` set hs then map (\<lambda>(k', v'). if k' = k then (k', v) else (k', v')) hs
      else hs @ [(k, v)])"

text \<open>
  The calls made on \<open>res\<close>: \<open>res.writeHead(status, headers)\<close>, \<open>res.end(body)\<close> (\<open>None\<close>
  for \<open>res.end()\<close>), and \<open>stream.pipe(res)\<close> for the stream of a file or of a range of it.
\<close>

datatype body = Text jsstring | Data bytes

datatype res_call =
    WriteHead nat headers
  | End "body option"
  | Pipe jsstring "(jsnum \<times> jsnum) option"

type_synonym cache = "jsstring \<rightharpoonup> bytes"

text \<open>
  What one run of the handler does: the calls on \<open>res\<close> in order, the file system
  operations in order, the compression cache afterwards, and whether an exception is
  propagating (\<open>threw\<close>).  For the handler as a whole \<open>threw\<close> means that the promise of
  the \<open>async\<close> callback rejects: nothing more is written to \<open>res\<close>.
\<close>

record outcome =
  calls :: "res_call list"
  fs_ops :: "fs_op list"
  cache_after :: cache
  threw :: bool


definition MIME :: "(jsstring \<times> jsstring) list" where
  "MIME =
     [(js ''.html'', js ''text/html; charset=utf-8''),
      (js ''.css'', js ''text/css''),
      (js ''.js'', js ''application/javascript''),
      (js ''.mjs'', js ''application/javascript''),
      (js ''.json'', js ''application/json''),
      (js ''.png'', js ''image/png''),
      (js ''.jpg'', js ''image/jpeg''),
      (js ''.jpeg'', js ''image/jpeg''),
      (js ''.svg'', js ''image/svg+xml''),
      (js ''.ico'', js ''image/x-icon''),
      (js ''.webp'', js ''image/webp''),
      (js ''.woff2'', js ''font/woff2''),
      (js ''.woff'', js ''font/woff''),
      (js ''.mp4'', js ''video/mp4''),
      (js ''.webm'', js ''video/webm'')]"

definition STREAMABLE :: "jsstring list" where
  "STREAMABLE = [js ''.mp4'', js ''.webm'']"

definition COMPRESSIBLE :: "jsstring list" where
  "COMPRESSIBLE = [js ''.html'', js ''.css'', js ''.js'', js ''.mjs'', js ''.json'', js ''.svg'']"

subsection \<open>The request handler\<close>

text \<open>
  The \<open>Range\<close> branch (lines 55 to 64): the head that is written, and the range handed
  to \<open>createReadStream\<close>.
\<close>

definition range_parts :: "jsstring \<Rightarrow> jsstring list" where
  "range_parts r = split 45 (replace (js ''bytes='') [] r)"

definition range_start :: "jsstring \<Rightarrow> jsnum" where
  "range_start r = parseInt (range_parts r ! 0)"

definition range_end :: "jsstring \<Rightarrow> nat \<Rightarrow> jsnum" where
  "range_end r total_size =
     (let parts = range_parts r;
          start = parseInt (parts ! 0)
      in case item parts 1 of
           Some (d # ds) \<Rightarrow> parseInt (d # ds)
         | _ \<Rightarrow> Math_min (js_sub (js_add start (Fin (1024 * 1024))) (Fin 1))
                  (js_sub (Fin (int total_size)) (Fin 1)))"

definition range_head :: "jsstring \<Rightarrow> nat \<Rightarrow> jsstring \<Rightarrow> res_call" where
  "range_head r total_size ctype =
     (let start = range_start r;
          endpos = range_end r total_size
      in WriteHead 206
           [(js ''Content-Range'',
               HStr (js ''bytes '' @ Number_toString start @ js ''-'' @ Number_toString endpos
                       @ js ''/'' @ radix_digits 10 total_size)),
            (js ''Accept-Ranges'', HStr (js ''bytes'')),
            (js ''Content-Length'', HNum (js_add (js_sub endpos start) (Fin 1))),
            (js ''Content-Type'', HStr ctype)])"

text \<open>\<open>MIME[ext] || 'application/octet-stream'\<close> (line 48).\<close>

definition contentType :: "jsstring \<Rightarrow> jsstring" where
  "contentType ext =
     (case map_of MIME ext of
        Some t \<Rightarrow> t
      | None \<Rightarrow> js ''application/octet-stream'')"

text \<open>The entity tag (line 79): the size and the modification time in hexadecimal.\<close>

definition ETag :: "host \<Rightarrow> Stats \<Rightarrow> jsstring" where
  "ETag h fileStat =
     js ''\"'' @ radix_digits 16 (size fileStat) @ js ''-''
       @ mtime_toString h 16 (mtimeMs fileStat) @ js ''\"''"

text \<open>
  The body of the \<open>try\<close> block (lines 47 to 110), entered with \<open>filePath\<close> and \<open>ext\<close>.
  An operation that throws ends it with \<open>threw = True\<close>.  A header that is the empty
  string is falsy, as an absent one is.
\<close>

definition try_block ::
  "host \<Rightarrow> filesystem \<Rightarrow> cache \<Rightarrow> request \<Rightarrow> jsstring \<Rightarrow> jsstring \<Rightarrow> outcome" where
  "try_block h fs c req filePath ext =
     (case stat fs filePath of
        None \<Rightarrow> \<lparr>calls = [], fs_ops = [FsStat filePath], cache_after = c, threw = True\<rparr>
      | Some fileStat \<Rightarrow>
          (let ctype = contentType ext
           in if ext \<in> set STREAMABLE then
                (let total_size = size fileStat
                 in case range req of
                      Some (r0 # rs) \<Rightarrow>
                        (let r = r0 # rs;
                             start = range_start r;
                             endpos = range_end r total_size;
                             opened = createReadStream (Some (start, endpos))
                         in \<lparr>calls = range_head r total_size ctype
                                       # (if opened then [Pipe filePath (Some (start, endpos))]
                                          else []),
                             fs_ops = [FsStat filePath,
                                       FsCreateReadStream filePath (Some (start, endpos))],
                             cache_after = c, threw = \<not> opened\<rparr>)
                    | _ \<Rightarrow>
                        (let opened = createReadStream None
                         in \<lparr>calls = WriteHead 200
                                         [(js ''Content-Length'', HNum (Fin (int total_size))),
                                          (js ''Content-Type'', HStr ctype),
                                          (js ''Accept-Ranges'', HStr (js ''bytes''))]
                                       # (if opened then [Pipe filePath None] else []),
                             fs_ops = [FsStat filePath, FsCreateReadStream filePath None],
                             cache_after = c, threw = \<not> opened\<rparr>))
              else
                (case readFile fs filePath of
                   None \<Rightarrow>
                     \<lparr>calls = [], fs_ops = [FsStat filePath, FsReadFile filePath],
                      cache_after = c, threw = True\<rparr>
                 | Some data \<Rightarrow>
                     (let ops = [FsStat filePath, FsReadFile filePath];
                          headers = [(js ''Content-Type'', HStr ctype)];
                          etag = ETag h fileStat;
                          headers = set_header (js ''ETag'') (HStr etag) headers
                      in if if_none_match req = Some etag then
                           \<lparr>calls = [WriteHead 304 headers, End None], fs_ops = ops,
                            cache_after = c, threw = False\<rparr>
                         else
                           (let headers =
                                  (if ext = js ''.html'' then
                                     set_header (js ''Cache-Control'')
                                       (HStr (js ''no-cache, must-revalidate'')) headers
                                   else if ext \<in> set [js ''.jpg'', js ''.jpeg'', js ''.png'',
                                                       js ''.webp'', js ''.svg'', js ''.woff2'',
                                                       js ''.woff''] then
                                     set_header (js ''Cache-Control'')
                                       (HStr (js ''public, max-age=31536000, immutable'')) headers
                                   else
                                     set_header (js ''Cache-Control'')
                                       (HStr (js ''public, max-age=86400'')) headers);
                                plain = \<lparr>calls = [WriteHead 200 headers, End (Some (Data data))],
                                         fs_ops = ops, cache_after = c, threw = False\<rparr>
                            in if ext \<in> set COMPRESSIBLE \<and> length data > 1024 then
                                 (let acceptEncoding =
                                        (case accept_encoding req of
                                           Some (a # as) \<Rightarrow> a # as
                                         | _ \<Rightarrow> []);
                                      cacheKey = filePath @ js '':''
                                                   @ mtime_toString h 10 (mtimeMs fileStat)
                                  in if includes_js acceptEncoding (js ''br'') then
                                       (let brKey = cacheKey @ js '':br'';
                                            c' = (if c brKey = None
                                                  then c(brKey \<mapsto> brotliAsync h data) else c);
                                            headers = set_header (js ''Content-Encoding'')
                                                        (HStr (js ''br'')) headers;
                                            headers = set_header (js ''Vary'')
                                                        (HStr (js ''Accept-Encoding'')) headers
                                        in \<lparr>calls = [WriteHead 200 headers,
                                                      End (map_option Data (c' brKey))],
                                            fs_ops = ops, cache_after = c', threw = False\<rparr>)
                                     else if includes_js acceptEncoding (js ''gzip'') then
                                       (let gzKey = cacheKey @ js '':gz'';
                                            c' = (if c gzKey = None
                                                  then c(gzKey \<mapsto> gzipAsync h data) else c);
                                            headers = set_header (js ''Content-Encoding'')
                                                        (HStr (js ''gzip'')) headers;
                                            headers = set_header (js ''Vary'')
                                                        (HStr (js ''Accept-Encoding'')) headers
                                        in \<lparr>calls = [WriteHead 200 headers,
                                                      End (map_option Data (c' gzKey))],
                                            fs_ops = ops, cache_after = c', threw = False\<rparr>)
                                     else plain)
                               else plain)))))"

text \<open>
  The \<open>catch\<close> block (lines 111 to 114).  \<open>res.writeHead\<close> throws when a head has
  already been written, and that exception leaves the handler.
\<close>

fun is_WriteHead :: "res_call \<Rightarrow> bool" where
  "is_WriteHead (WriteHead _ _) = True"
| "is_WriteHead _ = False"

definition catch_block :: "outcome \<Rightarrow> outcome" where
  "catch_block r =
     (if \<exists>call \<in> set (calls r). is_WriteHead call then r\<lparr>threw := True\<rparr>
      else r\<lparr>calls := calls r @ [WriteHead 404 [], End (Some (Text (js ''Not found'')))],
              threw := False\<rparr>)"

text \<open>Lines 39 and 40: the path of the request, query stripped, then decoded.\<close>

definition decoded_path :: "request \<Rightarrow> js_error + jsstring" where
  "decoded_path req =
     (let url0 = (if url req = js ''/'' then js ''/index.html'' else url req)
      in decodeURIComponent (split 63 url0 ! 0))"

text \<open>
  The callback of \<open>createServer\<close>.  \<open>decodeURIComponent\<close> is called before the \<open>try\<close>
  block, so its \<open>URIError\<close> is not caught.
\<close>

definition handler :: "host \<Rightarrow> filesystem \<Rightarrow> cache \<Rightarrow> request \<Rightarrow> outcome" where
  "handler h fs c req =
     (case decoded_path req of
           Inl e \<Rightarrow> \<lparr>calls = [], fs_ops = [], cache_after = c, threw = True\<rparr>
         | Inr url1 \<Rightarrow>
             if includes_js url1 (js ''..'') then
               \<lparr>calls = [WriteHead 403 [], End (Some (Text (js ''Forbidden'')))],
                fs_ops = [], cache_after = c, threw = False\<rparr>
             else
               (let filePath = join_dirname h url1;
                    ext = extname h filePath;
                    r = try_block h fs c req filePath ext
                in if threw r then catch_block r else r))"

subsection \<open>An example environment\<close>

text \<open>
  A concrete host, file system and requests to evaluate the handler on.  The server
  directory is \<open>/srv\<close>; it holds the pages \<open>index.html\<close> and \<open>a..b.html\<close> and the videos
  \<open>clip.mp4\<close> and \<open>a..b.mp4\<close>, all last modified at a whole number of milliseconds.
  The example \<open>extname\<close> follows \<open>path.extname\<close> on POSIX paths: trailing slashes are
  dropped, and the extension is the suffix that starts at the last dot of the last
  segment, or empty when that segment has no dot, starts with its only dot, or is \<open>..\<close>.
\<close>

definition example_extname :: "jsstring \<Rightarrow> jsstring" where
  "example_extname path =
     (let trimmed = rev (dropWhile (\<lambda>c. c = 47) (rev path));
          base = rev (takeWhile (\<lambda>c. c \<noteq> 47) (rev trimmed));
          suffix = rev (takeWhile (\<lambda>c. c \<noteq> 46) (rev base));
          stem = take (length base - length suffix - 1) base
      in if length suffix = length base \<or> stem = [] \<or> base = [46, 46] then []
         else 46 # suffix)"

definition example_host :: host where
  "example_host =
     \<lparr>join_dirname = (\<lambda>u. js ''/srv'' @ u),
      extname = example_extname,
      mtime_toString = (\<lambda>radix t. radix_digits radix (nat \<lfloor>t\<rfloor>)),
      brotliAsync = (\<lambda>data. data),
      gzipAsync = (\<lambda>data. data)\<rparr>"

definition clip_data :: bytes where
  "clip_data = replicate 5000000 0"

definition example_fs :: filesystem where
  "example_fs =
     \<lparr>stat = (\<lambda>path.
         if path = js ''/srv/index.html'' \<or> path = js ''/srv/a..b.html''
         then Some \<lparr>size = 3, mtimeMs = 4096\<rparr>
         else if path = js ''/srv/clip.mp4'' \<or> path = js ''/srv/a..b.mp4''
         then Some \<lparr>size = 5000000, mtimeMs = 4096\<rparr>
         else None),
      readFile = (\<lambda>path.
         if path = js ''/srv/index.html'' \<or> path = js ''/srv/a..b.html''
         then Some [104, 105, 10]
         else if path = js ''/srv/clip.mp4'' \<or> path = js ''/srv/a..b.mp4''
         then Some clip_data
         else None)\<rparr>"

definition example_request :: "jsstring \<Rightarrow> request" where
  "example_request u =
     \<lparr>url = u, range = None, if_none_match = None, accept_encoding = None\<rparr>"

section \<open>Executions of the overlay\<close>

subsection \<open>An example overlay\<close>

text \<open>
  The props of the integration example (src/components/layout-example.tsx), in a
  viewport of 1280 by 720 without the reduced-motion preference.
\<close>

definition example_props :: props where
  "example_props = \<lparr>stockPrice = js ''$3.42'', forceReplay = False\<rparr>"

definition example_browser :: browser where
  "example_browser = \<lparr>innerWidth = 1280, innerHeight = 720, prefersReducedMotion = False\<rparr>"

subsection \<open>Invariants of the sequencer\<close>

text \<open>The phase the callback of a timer sets.\<close>

fun target :: "timer \<Rightarrow> Phase" where
  "target T_priceRoll = PriceRoll"
| "target T_fadeText = FadeText"
| "target T_blocks = Blocks"
| "target T_done = Done"
| "target T_reduced = Done"
| "target T_dayChange = DayChange"

text \<open>
  \<open>idle\<close>: the overlay of a session that has already played: mounted, still in its first
  phase, and without any timer, pending or past.
\<close>

definition idle :: "overlay \<Rightarrow> bool" where
  "idle s = (mounted s \<and> sessionPlayed s \<and> phase s = Intro \<and> timers s = [] \<and> scheduled s = [])"

text \<open>
  \<open>stuck st\<close>: the overlay has not gone beyond \<open>priceRoll\<close>, the only timer it ever
  scheduled is the one of the intro effect, and the session flag is as the mount found
  it in the storage \<open>st\<close>.
\<close>

definition stuck :: "storage \<Rightarrow> overlay \<Rightarrow> bool" where
  "stuck st s =
     ((phase s = Intro \<or> phase s = PriceRoll)
      \<and> (\<forall>t \<in> set (timers s). t = T_priceRoll)
      \<and> (\<forall>t \<in> set (scheduled s). t = T_priceRoll)
      \<and> sessionStorage s = st
      \<and> sessionPlayed s = session_effect SESSION_KEY st)"

text \<open>\<open>cb_done\<close>: every strip that carries the completion callback has finished.\<close>

definition cb_done :: "props \<Rightarrow> overlay \<Rightarrow> bool" where
  "cb_done p s =
     (\<forall>k < length (stockPrice p).
        has_onComplete (StockPriceOdometer (stockPrice p) ! k) \<longrightarrow> k \<in> set (finished s))"

text \<open>
  \<open>orderly\<close>: while the component is mounted, a pending timer waits in the phase its
  effect schedules it in (\<open>T_dayChange\<close>: in \<open>priceRoll\<close>, at most once, and never
  together with the reduced-motion timer), and the overlay has not left \<open>priceRoll\<close>
  before the strip with the callback finished, unless by the reduced-motion bypass.
\<close>

definition orderly :: "props \<Rightarrow> browser \<Rightarrow> overlay \<Rightarrow> bool" where
  "orderly p b s =
     (\<not> unmounted s \<longrightarrow>
      ((T_priceRoll \<in> set (timers s) \<longrightarrow> phase s = Intro)
       \<and> (T_fadeText \<in> set (timers s) \<longrightarrow> phase s = DayChange)
       \<and> (T_blocks \<in> set (timers s) \<longrightarrow> phase s = FadeText)
       \<and> (T_done \<in> set (timers s) \<longrightarrow> phase s = Blocks)
       \<and> (T_dayChange \<in> set (timers s) \<longrightarrow> phase s = PriceRoll \<and> \<not> prefersReducedMotion b)
       \<and> (T_reduced \<in> set (timers s) \<longrightarrow> prefersReducedMotion b)
       \<and> count_list (timers s) T_dayChange \<le> 1
       \<and> (T_dayChange \<in> set (timers s) \<or> 2 \<le> rank (phase s)
            \<longrightarrow> prefersReducedMotion b \<or> cb_done p s)))"

section \<open>Properties of the overlay's helpers\<close>

subsection \<open>Grid geometry\<close>

lemma ceil_neg_div: "a \<le> c * (- ((- a) div c))" if "0 < c" for a c :: int
proof -
  have "c * ((- a) div c) + (- a) mod c = - a" by simp
  moreover have "0 \<le> (- a) mod c" using that by simp
  ultimately have "c * ((- a) div c) \<le> - a" by linarith
  then show ?thesis by simp
qed

lemma ceil_neg_div_nonneg: "0 \<le> - ((- a) div c)" if "0 < c" and "0 \<le> a" for a c :: int
  using that div_nonpos_pos_le0 [of "- a" c] by linarith

text \<open>
  C2, as stated, fails for a viewport of width 0: \<open>blockW\<close> and \<open>blockH\<close> are then 0,
  \<open>rows\<close> is \<open>Infinity\<close> (for a positive height), and \<open>rows * blockH\<close> is \<open>NaN\<close>, which is
  not \<open>>= h + blockH\<close>.
\<close>

theorem computeGrid_zero_width_counterexample:
  "\<not> (0 < cols (computeGrid 0 768)
      \<and> js_gt (rows (computeGrid 0 768)) (Fin 0)
      \<and> js_ge (Fin (cols (computeGrid 0 768) * blockW (computeGrid 0 768))) (Fin 0)
      \<and> js_ge (js_mul (rows (computeGrid 0 768)) (Fin (blockH (computeGrid 0 768))))
            (js_add (Fin 768) (Fin (blockH (computeGrid 0 768)))))"
  by (simp add: computeGrid_def getColumnCount_def Math_ceil_div_def js_mul_def)

text \<open>
  C2 (amended): for every viewport of positive width \<open>w\<close> and every height \<open>h\<close>,
  \<open>computeGrid\<close> returns strictly positive column and row counts with
  \<open>cols * blockW >= w\<close> and \<open>rows * blockH >= h + blockH\<close>: the grid covers the viewport
  and one more row.
\<close>

theorem computeGrid_covers:
  assumes "0 < w"
  shows "0 < cols (computeGrid w h)
    \<and> js_gt (rows (computeGrid w h)) (Fin 0)
    \<and> js_ge (Fin (cols (computeGrid w h) * blockW (computeGrid w h))) (Fin (int w))
    \<and> js_ge (js_mul (rows (computeGrid w h)) (Fin (blockH (computeGrid w h))))
          (js_add (Fin (int h)) (Fin (blockH (computeGrid w h))))"
proof -
  let ?c = "getColumnCount (int w)"
  let ?b = "- ((- int w) div ?c)"
  have c: "0 < ?c" by (simp add: getColumnCount_def)
  have wb: "int w \<le> ?c * ?b" using c by (rule ceil_neg_div)
  have b: "0 < ?b"
  proof (rule ccontr)
    assume "\<not> 0 < ?b"
    then have "?c * ?b \<le> 0" using c by (simp add: mult_le_0_iff)
    with wb assms show False by simp
  qed
  have hb: "int h \<le> ?b * (- ((- int h) div ?b))" using b by (rule ceil_neg_div)
  have r: "0 \<le> - ((- int h) div ?b)" using b by (rule ceil_neg_div_nonneg) simp
  show ?thesis using c wb b hb r
    by (simp add: computeGrid_def Let_def Math_ceil_div_def js_mul_def js_gt_def algebra_simps)
qed

theorem computeGrid_covers_witness:
  "(0::nat) < 1280
   \<and> computeGrid 1280 720 = \<lparr>cols = 16, rows = Fin 10, blockW = 80, blockH = 80, vh = 720\<rparr>
   \<and> js_ge (js_mul (rows (computeGrid 1280 720)) (Fin (blockH (computeGrid 1280 720))))
          (js_add (Fin 720) (Fin (blockH (computeGrid 1280 720))))"
  using computeGrid_covers [of 1280 720]
  by (simp add: computeGrid_def getColumnCount_def Math_ceil_div_def js_mul_def)

subsection \<open>The price odometer\<close>

lemma length_map_chars: "length (map_chars T i d cs) = length cs"
  by (induction cs arbitrary: i d) (simp_all add: Let_def)

lemma nth_map_chars:
  "k < length cs \<Longrightarrow>
   map_chars T i d cs ! k =
     (if isDigit (cs ! k)
      then OdometerDigit (i + k) (char (cs ! k)) (d + length (filter isDigit (take k cs)))
             (int (d + length (filter isDigit (take k cs))) = T - 1)
      else StaticSpan (i + k) (char (cs ! k)))"
proof (induction cs arbitrary: i d k)
  case Nil
  then show ?case by simp
next
  case (Cons c cs)
  show ?case
  proof (cases k)
    case 0
    then show ?thesis by (simp add: Let_def)
  next
    case (Suc j)
    with Cons.prems have j: "j < length cs" by simp
    show ?thesis using Cons.IH [OF j] Suc by (simp add: Let_def)
  qed
qed

lemma upt_0_Suc: "[0 ..< Suc n] = 0 # map Suc [0 ..< n]"
  by (simp add: map_Suc_upt upt_conv_Cons del: upt_Suc)

text \<open>The strips from left to right: the one with \<open>digitIndex = totalDigits - 1\<close> carries
  the callback.\<close>

lemma strips_map_chars:
  "map has_onComplete (filter is_strip (map_chars T i d cs)) =
     map (\<lambda>j. int (d + j) = T - 1) [0 ..< length (filter isDigit cs)]"
proof (induction cs arbitrary: i d)
  case Nil
  then show ?case by simp
next
  case (Cons c cs)
  show ?case
  proof (cases "isDigit c")
    case True
    then show ?thesis using Cons.IH [of "i + 1" "d + 1"]
      by (simp add: Let_def upt_0_Suc comp_def del: upt_Suc)
  next
    case False
    then show ?thesis using Cons.IH [of "i + 1" d] by simp
  qed
qed

lemma count_strips_map_chars:
  "length (filter is_strip (map_chars T i d cs)) = length (filter isDigit cs)"
  using arg_cong [OF strips_map_chars, of length T i d cs] by simp

lemma filter_onComplete_strips:
  "filter has_onComplete (filter is_strip es) = filter has_onComplete es"
proof -
  have "has_onComplete e \<Longrightarrow> is_strip e" for e by (cases e) simp_all
  then show ?thesis by (auto simp: filter_filter intro: filter_cong)
qed

lemma filter_last_only:
  assumes "xs \<noteq> []"
    and "map P xs = map (\<lambda>k. int (0 + k) = int (length xs) - 1) [0 ..< length xs]"
  shows "filter P xs = [last xs]"
proof -
  obtain ys y where xs: "xs = ys @ [y]" using assms(1) by (metis rev_exhaust)
  have "\<forall>j < length xs. P (xs ! j) = (int j = int (length xs) - 1)"
  proof (intro allI impI)
    fix j assume j: "j < length xs"
    have "map P xs ! j = map (\<lambda>k. int (0 + k) = int (length xs) - 1) [0 ..< length xs] ! j"
      using assms(2) by simp
    then show "P (xs ! j) = (int j = int (length xs) - 1)" using j by simp
  qed
  then have a: "\<forall>j < length xs. P (xs ! j) = (j = length ys)" using xs by auto
  have "\<forall>z \<in> set ys. \<not> P z"
  proof
    fix z assume "z \<in> set ys"
    then obtain j where j: "j < length ys" "ys ! j = z" by (auto simp: in_set_conv_nth)
    then have "P (xs ! j) = (j = length ys)" using a xs by simp
    then show "\<not> P z" using j xs by (simp add: nth_append)
  qed
  moreover have "P y" using a xs by (auto simp: nth_append dest: spec [of _ "length ys"])
  ultimately show ?thesis using xs by simp
qed

lemma digits_parse:
  "filter isDigit (parsePriceChars price) = parsePriceChars (filter test_digit price)"
  by (induction price) (simp_all add: parsePriceChars_def)

lemma length_parse: "length (parsePriceChars price) = length price"
  by (simp add: parsePriceChars_def)

lemma strips_StockPriceOdometer:
  "length (filter is_strip (StockPriceOdometer price)) = length (filter test_digit price)"
  by (simp add: StockPriceOdometer_def Let_def count_strips_map_chars digits_parse length_parse)

text \<open>At most one element carries the callback, whatever the price.\<close>

lemma onComplete_cases:
  "filter has_onComplete (StockPriceOdometer price) =
     (if filter test_digit price = [] then []
      else [last (filter is_strip (StockPriceOdometer price))])"
proof (cases "filter test_digit price = []")
  case True
  then have "filter is_strip (StockPriceOdometer price) = []"
    using strips_StockPriceOdometer [of price] by simp
  then have "filter has_onComplete (filter is_strip (StockPriceOdometer price)) = []" by simp
  then have "filter has_onComplete (StockPriceOdometer price) = []"
    by (simp only: filter_onComplete_strips)
  then show ?thesis using True by simp
next
  case False
  let ?cs = "parsePriceChars price"
  let ?T = "int (length (filter isDigit ?cs))"
  let ?strips = "filter is_strip (StockPriceOdometer price)"
  have spo: "StockPriceOdometer price = map_chars ?T 0 0 ?cs"
    by (simp add: StockPriceOdometer_def Let_def)
  have n: "length ?strips = length (filter isDigit ?cs)"
    by (simp add: strips_StockPriceOdometer digits_parse length_parse)
  have ne: "?strips \<noteq> []" using strips_StockPriceOdometer [of price] False by auto
  have "map has_onComplete ?strips
          = map (\<lambda>k. int (0 + k) = int (length ?strips) - 1) [0 ..< length ?strips]"
    unfolding n using strips_map_chars [of ?T 0 0 ?cs] by (simp add: spo)
  from filter_last_only [OF ne this]
  have "filter has_onComplete (StockPriceOdometer price) = [last ?strips]"
    by (simp only: filter_onComplete_strips)
  then show ?thesis using False by simp
qed

text \<open>
  C3, as stated, fails for a price without a digit: no strip exists, the callback is
  attached to nothing, and so it fires zero times, not once.
\<close>

theorem odometer_no_digit_counterexample:
  "\<not> (length (filter has_onComplete (StockPriceOdometer (js ''N/A''))) = 1)"
  by (simp add: StockPriceOdometer_def parsePriceChars_def js_def test_digit_def)

text \<open>
  C3 (amended): for every price string with at least one digit, \<open>StockPriceOdometer\<close>
  renders one element per character, in place: an animated strip with the character for
  a digit \<open>'0'\<close> to \<open>'9'\<close>, a static span with the character otherwise; so there are as
  many strips as digits.  Exactly one element carries the completion callback, and it is
  the last strip from left to right: the callback fires once, when that strip finishes.
\<close>

theorem odometer_strips:
  assumes "\<exists>c \<in> set price. test_digit c"
  shows "length (StockPriceOdometer price) = length price
    \<and> (\<forall>i < length price.
         if test_digit (price ! i)
         then \<exists>k cb. StockPriceOdometer price ! i = OdometerDigit i (price ! i) k cb
         else StockPriceOdometer price ! i = StaticSpan i (price ! i))
    \<and> length (filter is_strip (StockPriceOdometer price)) = length (filter test_digit price)
    \<and> filter has_onComplete (StockPriceOdometer price)
        = [last (filter is_strip (StockPriceOdometer price))]"
proof -
  let ?cs = "parsePriceChars price"
  let ?T = "int (length (filter isDigit ?cs))"
  have spo: "StockPriceOdometer price = map_chars ?T 0 0 ?cs"
    by (simp add: StockPriceOdometer_def Let_def)
  have pos: "filter test_digit price \<noteq> []" using assms by (simp add: filter_empty_conv)
  have 1: "length (StockPriceOdometer price) = length price"
    by (simp add: spo length_map_chars length_parse)
  have 2: "\<forall>i < length price.
         if test_digit (price ! i)
         then \<exists>k cb. StockPriceOdometer price ! i = OdometerDigit i (price ! i) k cb
         else StockPriceOdometer price ! i = StaticSpan i (price ! i)"
    by (auto simp: spo nth_map_chars length_parse parsePriceChars_def)
  have 4: "filter has_onComplete (StockPriceOdometer price)
             = [last (filter is_strip (StockPriceOdometer price))]"
    using pos by (simp add: onComplete_cases)
  show ?thesis using 1 2 strips_StockPriceOdometer [of price] 4 by blast
qed

theorem odometer_strips_witness:
  "test_digit 51
   \<and> StockPriceOdometer (js ''$3.42'') =
       [StaticSpan 0 36, OdometerDigit 1 51 0 False, StaticSpan 2 46,
        OdometerDigit 3 52 1 False, OdometerDigit 4 50 2 True]
   \<and> filter has_onComplete (StockPriceOdometer (js ''$3.42'')) = [OdometerDigit 4 50 2 True]"
  using odometer_strips [of "js ''$3.42''"]
  by (simp add: StockPriceOdometer_def parsePriceChars_def js_def test_digit_def)

section \<open>Properties of the static server\<close>

subsection \<open>The example environment, evaluated\<close>

lemma example_join: "join_dirname example_host u = js ''/srv'' @ u"
  by (simp add: example_host_def)

lemma example_ext_clip: "extname example_host (js ''/srv/clip.mp4'') = js ''.mp4''"
  by (simp add: example_host_def example_extname_def js_def)

lemma example_ext_index: "extname example_host (js ''/srv/index.html'') = js ''.html''"
  by (simp add: example_host_def example_extname_def js_def)

lemma example_stat_clip:
  "stat example_fs (js ''/srv/clip.mp4'') = Some \<lparr>size = 5000000, mtimeMs = 4096\<rparr>"
  by (simp add: example_fs_def js_def)

lemma example_stat_index:
  "stat example_fs (js ''/srv/index.html'') = Some \<lparr>size = 3, mtimeMs = 4096\<rparr>"
  by (simp add: example_fs_def js_def)

lemma example_read_clip: "readFile example_fs (js ''/srv/clip.mp4'') = Some clip_data"
  by (simp add: example_fs_def js_def)

lemma example_read_index: "readFile example_fs (js ''/srv/index.html'') = Some [104, 105, 10]"
  by (simp add: example_fs_def js_def)

lemma example_stat_dots_html:
  "stat example_fs (js ''/srv/a..b.html'') = Some \<lparr>size = 3, mtimeMs = 4096\<rparr>"
  by (simp add: example_fs_def js_def)

lemma example_read_dots_html:
  "readFile example_fs (js ''/srv/a..b.html'') = Some [104, 105, 10]"
  by (simp add: example_fs_def js_def)


lemma example_etag_index: "ETag example_host \<lparr>size = 3, mtimeMs = 4096\<rparr> = js ''\"3-1000\"''"
  by (simp add: ETag_def example_host_def js_def digit_char_def)

lemma mp4_streamable: "js ''.mp4'' \<in> set STREAMABLE"
  by (simp add: STREAMABLE_def)

lemma html_not_streamable: "js ''.html'' \<notin> set STREAMABLE"
  by (simp add: STREAMABLE_def js_def)

lemma contentType_mp4: "contentType (js ''.mp4'') = js ''video/mp4''"
  by (simp add: contentType_def MIME_def js_def)

lemma contentType_html: "contentType (js ''.html'') = js ''text/html; charset=utf-8''"
  by (simp add: contentType_def MIME_def js_def)

lemma no_dots_clip: "\<not> includes_js (js ''/clip.mp4'') (js ''..'')"
  by (simp add: js_def)

lemma no_dots_index: "\<not> includes_js (js ''/index.html'') (js ''..'')"
  by (simp add: js_def)

subsection \<open>Path traversal and malformed escapes\<close>

text \<open>
  C1: whenever the path of the request, query stripped and decoded, contains \<open>..\<close>, the
  handler answers 403 with the body \<open>Forbidden\<close> and performs no file system operation
  (nor does it touch the compression cache), whatever the host, the files and the
  headers are.
\<close>

theorem traversal_forbidden:
  assumes "decoded_path req = Inr path" and "includes_js path (js ''..'')"
  shows "handler h fs c req =
    \<lparr>calls = [WriteHead 403 [], End (Some (Text (js ''Forbidden'')))],
     fs_ops = [], cache_after = c, threw = False\<rparr>"
  using assms by (simp add: handler_def)

theorem traversal_forbidden_witness:
  "decoded_path (example_request (js ''/%2e%2e/secret?x=1'')) = Inr (js ''/../secret'')
   \<and> includes_js (js ''/../secret'') (js ''..'')
   \<and> handler example_host example_fs Map.empty (example_request (js ''/%2e%2e/secret?x=1'')) =
        \<lparr>calls = [WriteHead 403 [], End (Some (Text (js ''Forbidden'')))],
         fs_ops = [], cache_after = Map.empty, threw = False\<rparr>"
proof -
  have d: "decoded_path (example_request (js ''/%2e%2e/secret?x=1'')) = Inr (js ''/../secret'')"
    by (simp add: decoded_path_def example_request_def js_def ParseHexOctet_def hex_value_def
        leading_ones_def)
  have i: "includes_js (js ''/../secret'') (js ''..'')" by (simp add: js_def)
  show ?thesis using d i traversal_forbidden [OF d i, of example_host example_fs Map.empty]
    by simp
qed

text \<open>
  C10: for the request URL \<open>/%\<close> (a percent sign with no two hexadecimal digits after
  it) \<open>decodeURIComponent\<close> throws; the call stands before the \<open>try\<close> block, so the
  exception leaves the handler: nothing is written to \<open>res\<close> (in particular no 404), and
  no file is touched.
\<close>

theorem malformed_escape_no_response:
  "handler h fs c (req\<lparr>url := js ''/%''\<rparr>) =
     \<lparr>calls = [], fs_ops = [], cache_after = c, threw = True\<rparr>"
  by (simp add: handler_def decoded_path_def js_def)

subsection \<open>Conditional requests\<close>

lemma try_block_not_modified:
  assumes "ext \<notin> set STREAMABLE" and "stat fs p = Some st" and "readFile fs p = Some data"
    and "if_none_match req = Some (ETag h st)"
  shows "try_block h fs c req p ext =
    \<lparr>calls = [WriteHead 304 [(js ''Content-Type'', HStr (contentType ext)),
                              (js ''ETag'', HStr (ETag h st))], End None],
     fs_ops = [FsStat p, FsReadFile p], cache_after = c, threw = False\<rparr>"
proof -
  have "set_header (js ''ETag'') (HStr (ETag h st)) [(js ''Content-Type'', HStr (contentType ext))]
        = [(js ''Content-Type'', HStr (contentType ext)), (js ''ETag'', HStr (ETag h st))]"
    by (simp add: set_header_def js_def)
  then show ?thesis using assms by (simp add: try_block_def Let_def)
qed

text \<open>
  C4, as stated, fails in two ways.  For a file with a streamable extension the
  streaming branch returns before the entity tag is computed: the video \<open>clip.mp4\<close>
  exists and can be read, the request carries the entity tag of the file in
  \<open>If-None-Match\<close>, and the answer is 200 with the file piped as body.  And a file whose
  name contains \<open>..\<close> is never served: the page \<open>a..b.html\<close> exists and can be read, the
  request carries its entity tag, and the answer is 403.
\<close>

theorem etag_counterexample:
  "stat example_fs (js ''/srv/clip.mp4'') = Some \<lparr>size = 5000000, mtimeMs = 4096\<rparr>
   \<and> readFile example_fs (js ''/srv/clip.mp4'') = Some clip_data
   \<and> handler example_host example_fs Map.empty
        ((example_request (js ''/clip.mp4''))
           \<lparr>if_none_match := Some (ETag example_host \<lparr>size = 5000000, mtimeMs = 4096\<rparr>)\<rparr>) =
      \<lparr>calls = [WriteHead 200 [(js ''Content-Length'', HNum (Fin 5000000)),
                               (js ''Content-Type'', HStr (js ''video/mp4'')),
                               (js ''Accept-Ranges'', HStr (js ''bytes''))],
                Pipe (js ''/srv/clip.mp4'') None],
       fs_ops = [FsStat (js ''/srv/clip.mp4''), FsCreateReadStream (js ''/srv/clip.mp4'') None],
       cache_after = Map.empty, threw = False\<rparr>
   \<and> stat example_fs (js ''/srv/a..b.html'') = Some \<lparr>size = 3, mtimeMs = 4096\<rparr>
   \<and> readFile example_fs (js ''/srv/a..b.html'') = Some [104, 105, 10]
   \<and> handler example_host example_fs Map.empty
        ((example_request (js ''/a..b.html''))
           \<lparr>if_none_match := Some (ETag example_host \<lparr>size = 3, mtimeMs = 4096\<rparr>)\<rparr>) =
      \<lparr>calls = [WriteHead 403 [], End (Some (Text (js ''Forbidden'')))],
       fs_ops = [], cache_after = Map.empty, threw = False\<rparr>"
proof -
  let ?req = "(example_request (js ''/clip.mp4''))
           \<lparr>if_none_match := Some (ETag example_host \<lparr>size = 5000000, mtimeMs = 4096\<rparr>)\<rparr>"
  let ?req' = "(example_request (js ''/a..b.html''))
           \<lparr>if_none_match := Some (ETag example_host \<lparr>size = 3, mtimeMs = 4096\<rparr>)\<rparr>"
  have p: "decoded_path ?req = Inr (js ''/clip.mp4'')"
    by (simp add: decoded_path_def example_request_def js_def)
  have j: "join_dirname example_host (js ''/clip.mp4'') = js ''/srv/clip.mp4''"
    by (simp add: example_join js_def)
  have t: "try_block example_host example_fs Map.empty ?req (js ''/srv/clip.mp4'') (js ''.mp4'') =
      \<lparr>calls = [WriteHead 200 [(js ''Content-Length'', HNum (Fin 5000000)),
                               (js ''Content-Type'', HStr (js ''video/mp4'')),
                               (js ''Accept-Ranges'', HStr (js ''bytes''))],
                Pipe (js ''/srv/clip.mp4'') None],
       fs_ops = [FsStat (js ''/srv/clip.mp4''), FsCreateReadStream (js ''/srv/clip.mp4'') None],
       cache_after = Map.empty, threw = False\<rparr>"
    by (simp add: try_block_def example_stat_clip mp4_streamable contentType_mp4
        createReadStream_def example_request_def)
  have 1: "handler example_host example_fs Map.empty ?req =
      \<lparr>calls = [WriteHead 200 [(js ''Content-Length'', HNum (Fin 5000000)),
                               (js ''Content-Type'', HStr (js ''video/mp4'')),
                               (js ''Accept-Ranges'', HStr (js ''bytes''))],
                Pipe (js ''/srv/clip.mp4'') None],
       fs_ops = [FsStat (js ''/srv/clip.mp4''), FsCreateReadStream (js ''/srv/clip.mp4'') None],
       cache_after = Map.empty, threw = False\<rparr>"
    by (simp add: handler_def p no_dots_clip j example_ext_clip t Let_def)
  have p': "decoded_path ?req' = Inr (js ''/a..b.html'')"
    by (simp add: decoded_path_def example_request_def js_def)
  have d: "includes_js (js ''/a..b.html'') (js ''..'')" by (simp add: js_def)
  have 2: "handler example_host example_fs Map.empty ?req' =
      \<lparr>calls = [WriteHead 403 [], End (Some (Text (js ''Forbidden'')))],
       fs_ops = [], cache_after = Map.empty, threw = False\<rparr>"
    by (simp add: handler_def p' d)
  show ?thesis
    using example_stat_clip example_read_clip example_stat_dots_html example_read_dots_html 1 2
    by simp
qed

text \<open>
  C4 (amended): for every request whose URL decodes to a path without \<open>..\<close>, for an
  existing file that can be read (so not a directory) and whose extension is not
  streamable (neither \<open>.mp4\<close> nor \<open>.webm\<close>), when \<open>If-None-Match\<close> equals the entity tag
  computed from the size and the modification time of the file, the handler answers 304
  with the headers \<open>Content-Type\<close> and \<open>ETag\<close> and ends the response without a body.
\<close>

theorem etag_not_modified:
  assumes "decoded_path req = Inr path" and "\<not> includes_js path (js ''..'')"
    and "extname h (join_dirname h path) \<notin> set STREAMABLE"
    and "stat fs (join_dirname h path) = Some st"
    and "readFile fs (join_dirname h path) = Some data"
    and "if_none_match req = Some (ETag h st)"
  shows "handler h fs c req =
    \<lparr>calls = [WriteHead 304
                 [(js ''Content-Type'', HStr (contentType (extname h (join_dirname h path)))),
                  (js ''ETag'', HStr (ETag h st))],
               End None],
     fs_ops = [FsStat (join_dirname h path), FsReadFile (join_dirname h path)],
     cache_after = c, threw = False\<rparr>"
  using assms(1,2) try_block_not_modified [OF assms(3-6), of c]
  by (simp add: handler_def Let_def)

theorem etag_not_modified_witness:
  "handler example_host example_fs Map.empty
     ((example_request (js ''/'')) \<lparr>if_none_match := Some (js ''\"3-1000\"'')\<rparr>) =
    \<lparr>calls = [WriteHead 304 [(js ''Content-Type'', HStr (js ''text/html; charset=utf-8'')),
                              (js ''ETag'', HStr (js ''\"3-1000\"''))], End None],
     fs_ops = [FsStat (js ''/srv/index.html''), FsReadFile (js ''/srv/index.html'')],
     cache_after = Map.empty, threw = False\<rparr>"
proof -
  let ?req = "(example_request (js ''/'')) \<lparr>if_none_match := Some (js ''\"3-1000\"'')\<rparr>"
  have p: "decoded_path ?req = Inr (js ''/index.html'')"
    by (simp add: decoded_path_def example_request_def js_def)
  have j: "join_dirname example_host (js ''/index.html'') = js ''/srv/index.html''"
    by (simp add: example_join js_def)
  have m: "if_none_match ?req = Some (ETag example_host \<lparr>size = 3, mtimeMs = 4096\<rparr>)"
    by (simp add: example_etag_index)
  from etag_not_modified [of ?req "js ''/index.html''" example_host example_fs _ _ Map.empty,
      OF p no_dots_index]
  show ?thesis
    using html_not_streamable example_stat_index example_read_index m
    by (simp add: j example_ext_index contentType_html example_etag_index)
qed

subsection \<open>Range requests\<close>
















section \<open>Properties of the phase sequencer\<close>

subsection \<open>Effects and commits\<close>

lemma effect_fields [simp]:
  "phase (effect t ch c s) = phase s"
  "sessionPlayed (effect t ch c s) = sessionPlayed s"
  "mounted (effect t ch c s) = mounted s"
  "grid (effect t ch c s) = grid s"
  "finished (effect t ch c s) = finished s"
  "unmounted (effect t ch c s) = unmounted s"
  "sessionStorage (effect t ch c s) = sessionStorage s"
  by (simp_all add: effect_def Let_def)

lemma timers_effect:
  "timers (effect t ch c s) =
     (if ch then removeAll t (timers s) @ (if c then [t] else []) else timers s)"
  by (simp add: effect_def Let_def)

lemma scheduled_effect:
  "scheduled (effect t ch c s) = (if ch \<and> c then scheduled s @ [t] else scheduled s)"
  by (simp add: effect_def Let_def)

lemma run_effects_fields [simp]:
  "phase (run_effects p b prev s) = phase s"
  "sessionPlayed (run_effects p b prev s) = sessionPlayed s"
  "mounted (run_effects p b prev s) = mounted s"
  "grid (run_effects p b prev s) = grid s"
  "finished (run_effects p b prev s) = finished s"
  "unmounted (run_effects p b prev s) = unmounted s"
  "sessionStorage (run_effects p b prev s) = sessionStorage s"
  by (simp_all add: run_effects_def Let_def)

lemma shouldAnimate_effect [simp]: "shouldAnimate p (effect t ch c s) = shouldAnimate p s"
  by (simp add: shouldAnimate_def)

lemma shouldAnimate_run_effects [simp]:
  "shouldAnimate p (run_effects p' b prev s) = shouldAnimate p s"
  by (simp add: shouldAnimate_def)

lemma rerender_fields [simp]:
  "phase (rerender p b old s) = phase s"
  "sessionPlayed (rerender p b old s) = sessionPlayed s"
  "mounted (rerender p b old s) = mounted s"
  "grid (rerender p b old s) = grid s"
  "finished (rerender p b old s) = finished s"
  "unmounted (rerender p b old s) = unmounted s"
  "sessionStorage (rerender p b old s) = sessionStorage s"
  by (simp_all add: rerender_def)

lemma mem_timers_effect:
  "x \<in> set (timers (effect t ch c s)) \<longleftrightarrow>
     (if x = t then (if ch then c else x \<in> set (timers s)) else x \<in> set (timers s))"
  by (simp add: timers_effect)

lemma mem_scheduled_effect:
  "x \<in> set (scheduled (effect t ch c s)) \<longleftrightarrow> x \<in> set (scheduled s) \<or> (x = t \<and> ch \<and> c)"
  by (auto simp: scheduled_effect)

lemma changed_Some [simp]: "changed (Some old) new deps = (deps old \<noteq> deps new)"
  by (simp add: changed_def)

lemma changed_None [simp]: "changed None new deps"
  by (simp add: changed_def)

text \<open>Which timers are pending after a commit.\<close>

lemma mem_timers_run_effects:
  "T_priceRoll \<in> set (timers (run_effects p b prev s)) \<longleftrightarrow>
     (if changed prev s (\<lambda>s. (shouldAnimate p s, phase s))
      then shouldAnimate p s \<and> phase s = Intro else T_priceRoll \<in> set (timers s))"
  "T_fadeText \<in> set (timers (run_effects p b prev s)) \<longleftrightarrow>
     (if changed prev s phase then phase s = DayChange else T_fadeText \<in> set (timers s))"
  "T_blocks \<in> set (timers (run_effects p b prev s)) \<longleftrightarrow>
     (if changed prev s phase then phase s = FadeText else T_blocks \<in> set (timers s))"
  "T_done \<in> set (timers (run_effects p b prev s)) \<longleftrightarrow>
     (if changed prev s (\<lambda>s. (phase s, grid s))
      then phase s = Blocks \<and> grid s \<noteq> None else T_done \<in> set (timers s))"
  "T_reduced \<in> set (timers (run_effects p b prev s)) \<longleftrightarrow>
     (if changed prev s (\<lambda>s. (shouldAnimate p s, prefersReducedMotion b))
      then shouldAnimate p s \<and> prefersReducedMotion b else T_reduced \<in> set (timers s))"
  "T_dayChange \<in> set (timers (run_effects p b prev s)) \<longleftrightarrow> T_dayChange \<in> set (timers s)"
  by (simp_all add: run_effects_def Let_def mem_timers_effect)

lemma mem_scheduled_run_effects:
  "x \<in> set (scheduled (run_effects p b prev s)) \<longleftrightarrow>
     x \<in> set (scheduled s)
     \<or> (x = T_priceRoll \<and> changed prev s (\<lambda>s. (shouldAnimate p s, phase s))
          \<and> shouldAnimate p s \<and> phase s = Intro)
     \<or> (x = T_fadeText \<and> changed prev s phase \<and> phase s = DayChange)
     \<or> (x = T_blocks \<and> changed prev s phase \<and> phase s = FadeText)
     \<or> (x = T_done \<and> changed prev s (\<lambda>s. (phase s, grid s)) \<and> phase s = Blocks \<and> grid s \<noteq> None)
     \<or> (x = T_reduced \<and> changed prev s (\<lambda>s. (shouldAnimate p s, prefersReducedMotion b))
          \<and> shouldAnimate p s \<and> prefersReducedMotion b)"
  by (simp add: run_effects_def Let_def mem_scheduled_effect)

lemma count_list_removeAll: "x \<noteq> t \<Longrightarrow> count_list (removeAll t xs) x = count_list xs x"
  by (induction xs) auto

lemma count_dayChange_effect:
  "t \<noteq> T_dayChange \<Longrightarrow>
   count_list (timers (effect t ch c s)) T_dayChange = count_list (timers s) T_dayChange"
  by (simp add: timers_effect count_list_removeAll)

lemma count_dayChange_run_effects:
  "count_list (timers (run_effects p b prev s)) T_dayChange = count_list (timers s) T_dayChange"
  by (simp add: run_effects_def Let_def count_dayChange_effect)

lemma callback_fields [simp]:
  "timers (callback t s) = timers s"
  "scheduled (callback t s) = scheduled s"
  "finished (callback t s) = finished s"
  "unmounted (callback t s) = unmounted s"
  "mounted (callback t s) = mounted s"
  "grid (callback t s) = grid s"
  by (cases t; simp add: setPhase_def markPlayed_def Let_def)+

lemma phase_callback: "phase (callback t s) = (if unmounted s then phase s else target t)"
  by (cases t) (simp_all add: setPhase_def markPlayed_def Let_def)

lemma sessionPlayed_callback:
  "sessionPlayed (callback t s) =
     (if \<not> unmounted s \<and> (t = T_done \<or> t = T_reduced) then True else sessionPlayed s)"
  by (cases t) (simp_all add: setPhase_def markPlayed_def Let_def)

lemma sessionStorage_callback:
  "sessionStorage (callback t s) =
     (if t = T_done \<or> t = T_reduced then setItem SESSION_KEY (js ''1'') (sessionStorage s)
      else sessionStorage s)"
  by (cases t) (simp_all add: setPhase_def markPlayed_def Let_def)

lemma trace_invariant:
  assumes "\<forall>s e s'. I s \<longrightarrow> step p b e s = Some s' \<longrightarrow> I s'"
    and "I s" and "trace p b es s = Some tr"
  shows "\<forall>x \<in> set tr. I x"
  using assms(2,3)
proof (induction es arbitrary: s tr)
  case Nil
  then show ?case by auto
next
  case (Cons e es)
  then obtain s' tr' where s': "step p b e s = Some s'" and tr': "trace p b es s' = Some tr'"
    and tr: "tr = s # tr'"
    by (auto split: option.splits)
  have "I s'" using assms(1) Cons.prems(1) s' by blast
  from Cons.IH [OF this tr'] show ?case using tr Cons.prems(1) by simp
qed

lemma trace_nonempty: "trace p b es s = Some tr \<Longrightarrow> tr \<noteq> []"
  by (cases es) (auto split: option.splits)

lemma run_invariant:
  assumes "\<forall>s e s'. I s \<longrightarrow> step p b e s = Some s' \<longrightarrow> I s'"
    and "I s" and "run p b es s = Some x"
  shows "I x"
proof -
  obtain tr where tr: "trace p b es s = Some tr" and x: "x = last tr"
    using assms(3) by (auto simp: run_def)
  have "last tr \<in> set tr" using trace_nonempty [OF tr] by simp
  then show ?thesis using trace_invariant [OF assms(1,2) tr] x by blast
qed

subsection \<open>The steps of an execution\<close>

lemma filter_take_mono:
  "i \<le> j \<Longrightarrow> length (filter P (take i xs)) \<le> length (filter P (take j xs))"
proof -
  assume "i \<le> j"
  then have "take j xs = take i xs @ take (j - i) (drop i xs)"
    by (metis le_add_diff_inverse take_add)
  then show ?thesis by simp
qed

lemma onComplete_nth:
  assumes "k < length price"
  shows "has_onComplete (StockPriceOdometer price ! k) \<longleftrightarrow>
     (isDigit (parsePriceChars price ! k)
      \<and> int (length (filter isDigit (take k (parsePriceChars price))))
          = int (length (filter isDigit (parsePriceChars price))) - 1)"
  using assms
  by (simp add: StockPriceOdometer_def Let_def nth_map_chars length_parse)

lemma onComplete_unique:
  assumes "i < length price" and "j < length price"
    and "has_onComplete (StockPriceOdometer price ! i)"
    and "has_onComplete (StockPriceOdometer price ! j)"
  shows "i = j"
proof -
  let ?cs = "parsePriceChars price"
  let ?n = "\<lambda>k. length (filter isDigit (take k ?cs))"
  have less: "False" if "a < c" and "c < length price" and "isDigit (?cs ! a)" and "?n a = ?n c" for a c
  proof -
    have "take (Suc a) ?cs = take a ?cs @ [?cs ! a]"
      using that(1,2) by (simp add: take_Suc_conv_app_nth length_parse)
    then have "?n (Suc a) = Suc (?n a)" using that(3) by simp
    moreover have "?n (Suc a) \<le> ?n c" using that(1) by (intro filter_take_mono) simp
    ultimately show False using that(4) by simp
  qed
  have i: "isDigit (?cs ! i)" "int (?n i) = int (length (filter isDigit ?cs)) - 1"
    using assms(1,3) by (simp_all add: onComplete_nth)
  have j: "isDigit (?cs ! j)" "int (?n j) = int (length (filter isDigit ?cs)) - 1"
    using assms(2,4) by (simp_all add: onComplete_nth)
  have eq: "?n i = ?n j" using i(2) j(2) by simp
  show ?thesis
  proof (rule ccontr)
    assume "i \<noteq> j"
    then consider "i < j" | "j < i" by linarith
    then show False
    proof cases
      case 1
      then show False using less [of i j] assms(2) i(1) eq by simp
    next
      case 2
      then show False using less [of j i] assms(1) j(1) eq by simp
    qed
  qed
qed

lemma length_StockPriceOdometer: "length (StockPriceOdometer price) = length price"
  by (simp add: StockPriceOdometer_def Let_def length_map_chars length_parse)

lemma render_odometer:
  assumes "render p b s = Animation t (Some elems) g"
  shows "elems = StockPriceOdometer (stockPrice p)" and "\<not> prefersReducedMotion b"
    and "phase s = PriceRoll \<or> phase s = DayChange \<or> phase s = FadeText"
  using assms by (auto simp: render_def Let_def split: if_splits)

lemma step_Fire:
  assumes "step p b (Fire t) s = Some s'"
  shows "t \<in> set (timers s)"
    and "s' = rerender p b s (callback t (s\<lparr>timers := remove1 t (timers s)\<rparr>))"
  using assms by (auto split: if_splits)

lemma step_StripDone:
  assumes "step p b (StripDone k) s = Some s'"
  shows "\<not> unmounted s" and "\<not> prefersReducedMotion b"
    and "phase s = PriceRoll \<or> phase s = DayChange \<or> phase s = FadeText"
    and "k < length (stockPrice p)" and "k \<notin> set (finished s)"
    and "s' = (if has_onComplete (StockPriceOdometer (stockPrice p) ! k)
               then handlePriceRollComplete (s\<lparr>finished := finished s @ [k]\<rparr>)
               else s\<lparr>finished := finished s @ [k]\<rparr>)"
proof -
  obtain t elems g where r: "render p b s = Animation t (Some elems) g"
    using assms by (auto split: view.splits option.splits)
  note o = render_odometer [OF r]
  show "\<not> unmounted s" "\<not> prefersReducedMotion b"
    "phase s = PriceRoll \<or> phase s = DayChange \<or> phase s = FadeText"
    "k < length (stockPrice p)" "k \<notin> set (finished s)"
    "s' = (if has_onComplete (StockPriceOdometer (stockPrice p) ! k)
               then handlePriceRollComplete (s\<lparr>finished := finished s @ [k]\<rparr>)
               else s\<lparr>finished := finished s @ [k]\<rparr>)"
    using assms o
    by (auto simp: r Let_def length_StockPriceOdometer split: if_splits)
qed

lemma step_Unmount:
  assumes "step p b Unmount s = Some s'"
  shows "unmounted s'" and "phase s' = phase s" and "set (timers s') \<subseteq> set (timers s)"
    and "scheduled s' = scheduled s" and "sessionStorage s' = sessionStorage s"
    and "sessionPlayed s' = sessionPlayed s"
  using assms by (auto split: if_splits)

lemmas overlay_defs =
  mount_def first_render_def run_effects_def effect_def changed_def rerender_def
  shouldAnimate_def session_effect_def render_def setPhase_def markPlayed_def
  handlePriceRollComplete_def run_def Let_def example_props_def example_browser_def setItem_def

lemma example_odometer:
  "StockPriceOdometer (js ''$3.42'') =
     [StaticSpan 0 36, OdometerDigit 1 51 0 False, StaticSpan 2 46,
      OdometerDigit 3 52 1 False, OdometerDigit 4 50 2 True]"
  by (simp add: StockPriceOdometer_def parsePriceChars_def js_def test_digit_def)

lemma example_grid:
  "computeGrid 1280 720 = \<lparr>cols = 16, rows = Fin 10, blockW = 80, blockH = 80, vh = 720\<rparr>"
  by (simp add: computeGrid_def getColumnCount_def Math_ceil_div_def)

subsection \<open>A session that has already played\<close>

lemma idle_render: "\<not> forceReplay p \<Longrightarrow> idle s \<Longrightarrow> render p b s = Null"
  by (simp add: idle_def render_def shouldAnimate_def)

lemma idle_step:
  assumes "\<not> forceReplay p" and "idle s" and "step p b e s = Some s'"
  shows "idle s'"
proof (cases e)
  case (Fire t)
  then show ?thesis using assms by (simp add: idle_def)
next
  case (StripDone k)
  then show ?thesis using assms idle_render [OF assms(1,2), of b] by simp
next
  case Unmount
  then show ?thesis using assms by (auto simp: idle_def split: if_splits)
qed

lemma idle_mount:
  assumes "\<not> forceReplay p" and "session_effect SESSION_KEY st"
  shows "idle (mount p b st)"
  using assms
  by (simp add: idle_def mount_def Let_def rerender_def first_render_def run_effects_def
      effect_def shouldAnimate_def)

text \<open>
  C8: when \<open>forceReplay\<close> is false and the session storage already holds the flag, then
  in every state of every execution from the mount on (the mount itself included) the
  overlay renders \<open>null\<close>, no timer is pending and no \<open>setTimeout\<close> call has been made.
\<close>

theorem session_played_renders_nothing:
  assumes "\<not> forceReplay p" and "st = Some m" and "m SESSION_KEY = Some (js ''1'')"
    and "run p b es (mount p b st) = Some s"
  shows "render p b s = Null \<and> scheduled s = [] \<and> timers s = []"
proof -
  have "session_effect SESSION_KEY st" using assms(2,3) by (simp add: session_effect_def)
  then have m: "idle (mount p b st)" using assms(1) by (simp add: idle_mount)
  have i: "\<forall>s e s'. idle s \<longrightarrow> step p b e s = Some s' \<longrightarrow> idle s'"
    using idle_step [OF assms(1)] by blast
  have "idle s" by (rule run_invariant [OF i m assms(4)])
  then show ?thesis using idle_render [OF assms(1), of s b] by (simp add: idle_def)
qed

theorem session_played_renders_nothing_witness:
  "forceReplay example_props = False
   \<and> render example_props example_browser
        (mount example_props example_browser (Some [SESSION_KEY \<mapsto> js ''1''])) = Null
   \<and> scheduled (mount example_props example_browser (Some [SESSION_KEY \<mapsto> js ''1''])) = []"
proof -
  have f: "\<not> forceReplay example_props" by (simp add: example_props_def)
  have r: "run example_props example_browser []
             (mount example_props example_browser (Some [SESSION_KEY \<mapsto> js ''1'']))
           = Some (mount example_props example_browser (Some [SESSION_KEY \<mapsto> js ''1'']))"
    by (simp add: run_def)
  have m: "[SESSION_KEY \<mapsto> js ''1''] SESSION_KEY = Some (js ''1'')" by simp
  from session_played_renders_nothing [OF f refl m r] show ?thesis using f by simp
qed

subsection \<open>A price without digits\<close>

lemma no_digit_no_callback:
  assumes "\<forall>c \<in> set price. \<not> test_digit c"
  shows "filter has_onComplete (StockPriceOdometer price) = []"
proof -
  have "filter test_digit price = []" using assms by (simp add: filter_empty_conv)
  then show ?thesis by (simp add: onComplete_cases)
qed

lemma stuck_Fire:
  assumes rm: "\<not> prefersReducedMotion b" and inv: "stuck st s"
    and st: "step p b (Fire t) s = Some s'"
  shows "stuck st s'"
proof -
  note f = step_Fire [OF st]
  have t: "t = T_priceRoll" using f(1) inv by (simp add: stuck_def)
  let ?new = "callback t (s\<lparr>timers := remove1 t (timers s)\<rparr>)"
  have tn: "\<forall>x \<in> set (timers ?new). x = T_priceRoll"
    using inv by (auto simp: stuck_def dest: notin_set_remove1)
  show ?thesis
  proof (cases "unmounted s")
    case True
    then have "s' = ?new" using f(2) by (simp add: rerender_def)
    then show ?thesis using inv tn True
      by (simp add: stuck_def t setPhase_def)
  next
    case False
    then have s': "s' = run_effects p b (Some s) ?new" using f(2) by (simp add: rerender_def)
    have ph: "phase ?new = PriceRoll" using False by (simp add: t setPhase_def)
    have tn': "T_fadeText \<notin> set (timers ?new)" "T_blocks \<notin> set (timers ?new)"
      "T_done \<notin> set (timers ?new)" "T_reduced \<notin> set (timers ?new)"
      "T_dayChange \<notin> set (timers ?new)"
      using tn by blast+
    have no: "T_fadeText \<notin> set (timers s')" "T_blocks \<notin> set (timers s')"
      "T_done \<notin> set (timers s')" "T_reduced \<notin> set (timers s')"
      "T_dayChange \<notin> set (timers s')"
      unfolding s' mem_timers_run_effects using tn' rm ph by simp_all
    have "x = T_priceRoll" if "x \<in> set (timers s')" for x
      using that no by - (cases x, simp_all)
    moreover have "x = T_priceRoll" if "x \<in> set (scheduled s')" for x
    proof -
      have "x \<in> set (scheduled ?new) \<or> x = T_priceRoll"
        using that rm ph unfolding s' mem_scheduled_run_effects by simp
      then show ?thesis using inv by (auto simp: stuck_def)
    qed
    ultimately show ?thesis using inv ph
      by (simp add: stuck_def s' t setPhase_def)
  qed
qed

lemma stuck_step:
  assumes rm: "\<not> prefersReducedMotion b" and nd: "\<forall>c \<in> set (stockPrice p). \<not> test_digit c"
    and inv: "stuck st s" and st: "step p b e s = Some s'"
  shows "stuck st s'"
proof (cases e)
  case (Fire t)
  then show ?thesis using stuck_Fire [OF rm inv] st by simp
next
  case (StripDone k)
  note d = step_StripDone [OF st [unfolded StripDone]]
  have "\<forall>e \<in> set (StockPriceOdometer (stockPrice p)). \<not> has_onComplete e"
    using no_digit_no_callback [OF nd] by (simp add: filter_empty_conv)
  then have "\<not> has_onComplete (StockPriceOdometer (stockPrice p) ! k)"
    using d(4) by (simp add: length_StockPriceOdometer)
  then have "s' = s\<lparr>finished := finished s @ [k]\<rparr>" using d(6) by simp
  then show ?thesis using inv by (simp add: stuck_def)
next
  case Unmount
  note u = step_Unmount [OF st [unfolded Unmount]]
  show ?thesis using inv u by (auto simp: stuck_def)
qed

lemma first_commit: "run_effects p b None (first_render st) = first_render st"
  by (simp add: run_effects_def effect_def first_render_def shouldAnimate_def Let_def)

lemma mount_eq:
  "mount p b st =
     run_effects p b (Some (first_render st))
       ((first_render st)
          \<lparr>sessionPlayed := session_effect SESSION_KEY st, mounted := True,
           grid := Some (computeGrid (innerWidth b) (innerHeight b))\<rparr>)"
  by (simp add: mount_def Let_def first_commit rerender_def) (simp add: first_render_def)

lemma stuck_mount:
  assumes "\<not> prefersReducedMotion b"
  shows "stuck st (mount p b st)"
proof -
  let ?s3 = "(first_render st)
          \<lparr>sessionPlayed := session_effect SESSION_KEY st, mounted := True,
           grid := Some (computeGrid (innerWidth b) (innerHeight b))\<rparr>"
  have f: "timers ?s3 = []" "scheduled ?s3 = []" "phase ?s3 = Intro" "sessionStorage ?s3 = st"
    "sessionPlayed ?s3 = session_effect SESSION_KEY st"
    by (simp_all add: first_render_def)
  have no: "T_fadeText \<notin> set (timers (mount p b st))" "T_blocks \<notin> set (timers (mount p b st))"
      "T_done \<notin> set (timers (mount p b st))" "T_reduced \<notin> set (timers (mount p b st))"
      "T_dayChange \<notin> set (timers (mount p b st))"
    unfolding mount_eq mem_timers_run_effects using assms f by simp_all
  have t: "x = T_priceRoll" if "x \<in> set (timers (mount p b st))" for x
    using that no by - (cases x, simp_all)
  have s: "x = T_priceRoll" if "x \<in> set (scheduled (mount p b st))" for x
    using that assms f unfolding mount_eq mem_scheduled_run_effects by simp
  show ?thesis using t s f by (simp add: stuck_def) (simp add: mount_eq f)
qed

text \<open>
  C9: when the price has no digit and reduced motion is not preferred, no element of the
  odometer carries the completion callback; in every execution \<open>handlePriceRollComplete\<close>
  never runs (its timer is never scheduled), the phase stays \<open>intro\<close> or \<open>priceRoll\<close> and
  so never becomes \<open>done\<close>, and the session flag is never marked: the storage and the
  \<open>sessionPlayed\<close> state stay as they were at the mount.
\<close>

theorem no_digit_never_done:
  assumes "\<not> prefersReducedMotion b" and "\<forall>c \<in> set (stockPrice p). \<not> test_digit c"
    and "run p b es (mount p b st) = Some s"
  shows "filter has_onComplete (StockPriceOdometer (stockPrice p)) = []
    \<and> T_dayChange \<notin> set (scheduled s)
    \<and> (phase s = Intro \<or> phase s = PriceRoll)
    \<and> phase s \<noteq> Done
    \<and> sessionStorage s = st
    \<and> sessionPlayed s = sessionPlayed (mount p b st)"
proof -
  have i: "\<forall>s e s'. stuck st s \<longrightarrow> step p b e s = Some s' \<longrightarrow> stuck st s'"
    using stuck_step [OF assms(1,2)] by blast
  have m: "stuck st (mount p b st)" by (rule stuck_mount [OF assms(1)])
  have "stuck st s" by (rule run_invariant [OF i m assms(3)])
  then show ?thesis using m no_digit_no_callback [OF assms(2)]
    by (auto simp: stuck_def)
qed

theorem no_digit_never_done_witness:
  "prefersReducedMotion example_browser = False
   \<and> filter test_digit (js ''N/A'') = []
   \<and> map_option phase
        (run (example_props\<lparr>stockPrice := js ''N/A''\<rparr>) example_browser [Fire T_priceRoll]
           (mount (example_props\<lparr>stockPrice := js ''N/A''\<rparr>) example_browser (Some Map.empty)))
      = Some PriceRoll"
proof -
  let ?p = "example_props\<lparr>stockPrice := js ''N/A''\<rparr>"
  have rm: "\<not> prefersReducedMotion example_browser" by (simp add: example_browser_def)
  have nd: "\<forall>c \<in> set (stockPrice ?p). \<not> test_digit c" by (simp add: js_def test_digit_def)
  have e: "map_option phase
        (run ?p example_browser [Fire T_priceRoll] (mount ?p example_browser (Some Map.empty)))
      = Some PriceRoll"
    by (simp add: overlay_defs)
  then obtain s where s: "run ?p example_browser [Fire T_priceRoll]
      (mount ?p example_browser (Some Map.empty)) = Some s"
    by auto
  from no_digit_never_done [OF rm nd s] show ?thesis
    using rm e by (simp add: js_def test_digit_def)
qed

subsection \<open>Forward only\<close>

lemma in_remove1D: "x \<in> set (remove1 t xs) \<Longrightarrow> x \<in> set xs"
  by (meson notin_set_remove1)

lemma count_list_remove1_le: "count_list (remove1 t xs) x \<le> count_list xs x"
  by (induction xs) auto

lemma count_le1_remove1: "count_list xs x \<le> 1 \<Longrightarrow> x \<notin> set (remove1 x xs)"
  by (induction xs) (auto simp: count_list_0_iff)

lemma rank_le: "rank x \<le> 5"
  by (cases x) simp_all

lemma orderlyD:
  assumes "orderly p b s" and "\<not> unmounted s"
  shows "T_priceRoll \<in> set (timers s) \<longrightarrow> phase s = Intro"
    and "T_fadeText \<in> set (timers s) \<longrightarrow> phase s = DayChange"
    and "T_blocks \<in> set (timers s) \<longrightarrow> phase s = FadeText"
    and "T_done \<in> set (timers s) \<longrightarrow> phase s = Blocks"
    and "T_dayChange \<in> set (timers s) \<longrightarrow> phase s = PriceRoll \<and> \<not> prefersReducedMotion b"
    and "T_reduced \<in> set (timers s) \<longrightarrow> prefersReducedMotion b"
    and "count_list (timers s) T_dayChange \<le> 1"
    and "T_dayChange \<in> set (timers s) \<or> 2 \<le> rank (phase s)
               \<longrightarrow> prefersReducedMotion b \<or> cb_done p s"
  using assms unfolding orderly_def by blast+

lemma orderly_Fire:
  assumes inv: "orderly p b s" and st: "step p b (Fire t) s = Some s'"
  shows "orderly p b s' \<and> rank (phase s) \<le> rank (phase s')"
proof (cases "unmounted s")
  case True
  note f = step_Fire [OF st]
  have "s' = callback t (s\<lparr>timers := remove1 t (timers s)\<rparr>)"
    using f(2) True by (simp add: rerender_def)
  then show ?thesis using True by (simp add: orderly_def phase_callback)
next
  case False
  note f = step_Fire [OF st]
  let ?new = "callback t (s\<lparr>timers := remove1 t (timers s)\<rparr>)"
  have s': "s' = run_effects p b (Some s) ?new" using f(2) False by (simp add: rerender_def)
  have ph: "phase ?new = target t" using False by (simp add: phase_callback)
  have tm: "timers ?new = remove1 t (timers s)" by simp
  have fin: "cb_done p s' = cb_done p s" by (simp add: cb_done_def s')
  have un: "\<not> unmounted s'" using False by (simp add: s')
  note I = orderlyD [OF inv False]
  have src: "(t = T_priceRoll \<and> phase s = Intro) \<or> (t = T_fadeText \<and> phase s = DayChange)
     \<or> (t = T_blocks \<and> phase s = FadeText) \<or> (t = T_done \<and> phase s = Blocks)
     \<or> (t = T_dayChange \<and> phase s = PriceRoll \<and> \<not> prefersReducedMotion b)
     \<or> (t = T_reduced \<and> prefersReducedMotion b)"
    using f(1) I by - (cases t, simp_all)
  have mono: "rank (phase s) \<le> rank (phase s')"
    using src rank_le [of "phase s"] by (auto simp: s' ph)
  note I1 = I(1) and I2 = I(2) and I3 = I(3) and I4 = I(4) and I5 = I(5) and I6 = I(6)
    and I7 = I(7) and I8 = I(8)
  have tI: "target t \<noteq> Intro" by (cases t) simp_all
  have 1: "T_priceRoll \<in> set (timers s') \<longrightarrow> phase s' = Intro"
    unfolding s' mem_timers_run_effects using I1 tI by (auto simp: ph dest: in_remove1D)
  have 2: "T_fadeText \<in> set (timers s') \<longrightarrow> phase s' = DayChange"
    unfolding s' mem_timers_run_effects using I2 by (auto simp: ph dest: in_remove1D)
  have 3: "T_blocks \<in> set (timers s') \<longrightarrow> phase s' = FadeText"
    unfolding s' mem_timers_run_effects using I3 by (auto simp: ph dest: in_remove1D)
  have 4: "T_done \<in> set (timers s') \<longrightarrow> phase s' = Blocks"
    unfolding s' mem_timers_run_effects using I4 by (auto simp: ph dest: in_remove1D)
  have d: "T_dayChange \<notin> set (timers s')"
  proof
    assume "T_dayChange \<in> set (timers s')"
    then have m: "T_dayChange \<in> set (remove1 t (timers s))"
      by (simp add: s' mem_timers_run_effects)
    then have "T_dayChange \<in> set (timers s)" by (rule in_remove1D)
    then have "phase s = PriceRoll" "\<not> prefersReducedMotion b" using I5 by simp_all
    then have "t = T_dayChange" using src by auto
    then show False using m I7 count_le1_remove1 [of "timers s" T_dayChange] by simp
  qed
  have 6: "T_reduced \<in> set (timers s') \<longrightarrow> prefersReducedMotion b"
    unfolding s' mem_timers_run_effects using I6 by (auto dest: in_remove1D)
  have 7: "count_list (timers s') T_dayChange \<le> 1"
    using d by (simp add: count_list_0_iff)
  have "prefersReducedMotion b \<or> cb_done p s" if r2: "2 \<le> rank (target t)"
  proof -
    consider "t = T_reduced" | "t = T_dayChange" | "2 \<le> rank (phase s)"
      using src r2 by auto
    then show ?thesis
    proof cases
      case 1
      then show ?thesis using src by auto
    next
      case 2
      then show ?thesis using f(1) I8 by simp
    next
      case 3
      then show ?thesis using I8 by simp
    qed
  qed
  then have 8: "2 \<le> rank (phase s') \<longrightarrow> prefersReducedMotion b \<or> cb_done p s'"
    unfolding fin by (simp add: s' ph)
  show ?thesis using 1 2 3 4 d 6 7 8 mono un by (simp add: orderly_def)
qed

lemma orderly_StripDone:
  assumes inv: "orderly p b s" and st: "step p b (StripDone k) s = Some s'"
  shows "orderly p b s' \<and> rank (phase s) \<le> rank (phase s')"
proof -
  note d = step_StripDone [OF st]
  note I = orderlyD [OF inv d(1)]
  let ?s2 = "s\<lparr>finished := finished s @ [k]\<rparr>"
  show ?thesis
  proof (cases "has_onComplete (StockPriceOdometer (stockPrice p) ! k)")
    case False
    then have s': "s' = ?s2" using d(6) by simp
    have "cb_done p s \<Longrightarrow> cb_done p s'" by (simp add: cb_done_def s')
    then show ?thesis using I d(1) by (auto simp: orderly_def s')
  next
    case True
    then have s': "s' = handlePriceRollComplete ?s2" using d(6) by simp
    have "\<not> cb_done p s" using True d(4,5) by (auto simp: cb_done_def)
    then have no: "T_dayChange \<notin> set (timers s)" and r: "\<not> 2 \<le> rank (phase s)"
      using I d(2) by auto
    have ph: "phase s = PriceRoll" using r d(3) by auto
    have cbd: "cb_done p s'"
      unfolding cb_done_def
    proof (intro allI impI)
      fix j assume "j < length (stockPrice p)"
        and "has_onComplete (StockPriceOdometer (stockPrice p) ! j)"
      then have "j = k" using onComplete_unique [OF _ d(4) _ True] by blast
      then show "j \<in> set (finished s')" by (simp add: s' handlePriceRollComplete_def)
    qed
    have c: "count_list (timers s') T_dayChange \<le> 1"
      using no by (simp add: s' handlePriceRollComplete_def count_list_0_iff)
    show ?thesis using I d(1,2) ph cbd c
      by (auto simp: orderly_def s' handlePriceRollComplete_def)
  qed
qed

lemma orderly_step:
  assumes "orderly p b s" and "step p b e s = Some s'"
  shows "orderly p b s' \<and> rank (phase s) \<le> rank (phase s')"
proof (cases e)
  case (Fire t)
  then show ?thesis using orderly_Fire assms by simp
next
  case (StripDone k)
  then show ?thesis using orderly_StripDone assms by simp
next
  case Unmount
  note u = step_Unmount [OF assms(2) [unfolded Unmount]]
  show ?thesis using u by (simp add: orderly_def)
qed

lemma orderly_mount: "orderly p b (mount p b st)"
proof -
  let ?s3 = "(first_render st)
          \<lparr>sessionPlayed := session_effect SESSION_KEY st, mounted := True,
           grid := Some (computeGrid (innerWidth b) (innerHeight b))\<rparr>"
  have f: "timers ?s3 = []" "phase ?s3 = Intro" by (simp_all add: first_render_def)
  have no: "T_fadeText \<notin> set (timers (mount p b st))" "T_blocks \<notin> set (timers (mount p b st))"
      "T_done \<notin> set (timers (mount p b st))" "T_dayChange \<notin> set (timers (mount p b st))"
    unfolding mount_eq mem_timers_run_effects using f by simp_all
  have r: "T_reduced \<in> set (timers (mount p b st)) \<longrightarrow> prefersReducedMotion b"
    unfolding mount_eq mem_timers_run_effects using f by simp
  have ph: "phase (mount p b st) = Intro" by (simp add: mount_eq f)
  show ?thesis using no r ph by (simp add: orderly_def count_list_0_iff)
qed

lemma trace_forward:
  assumes "orderly p b s" and "trace p b es s = Some tr"
  shows "sorted (map (\<lambda>x. rank (phase x)) tr) \<and> (\<forall>x \<in> set tr. rank (phase s) \<le> rank (phase x))"
  using assms
proof (induction es arbitrary: s tr)
  case Nil
  then show ?case by auto
next
  case (Cons e es)
  then obtain s' tr' where s': "step p b e s = Some s'" and tr': "trace p b es s' = Some tr'"
    and tr: "tr = s # tr'"
    by (auto split: option.splits)
  have o: "orderly p b s'" and m: "rank (phase s) \<le> rank (phase s')"
    using orderly_step [OF Cons.prems(1) s'] by simp_all
  from Cons.IH [OF o tr'] show ?case using tr m by auto
qed

lemma rank_inj: "rank x = rank y \<Longrightarrow> x = y"
  by (cases x; cases y; simp)

text \<open>
  The phase is one state variable, so one phase is current at a time.  As long as the
  parent does not change the props, the phases visited along an execution from the mount
  never go backwards in the order intro, priceRoll, dayChange, fadeText, blocks, done:
  every transition that changes the phase moves strictly forward, and a phase that has
  been left is never entered again.
\<close>

theorem phases_forward:
  assumes "trace p b es (mount p b st) = Some tr"
  shows "sorted (map (\<lambda>s. rank (phase s)) tr)
    \<and> (\<forall>i. Suc i < length tr \<longrightarrow>
          phase (tr ! Suc i) = phase (tr ! i) \<or> rank (phase (tr ! i)) < rank (phase (tr ! Suc i)))
    \<and> (\<forall>i j k. i \<le> j \<and> j \<le> k \<and> k < length tr \<and> phase (tr ! i) = phase (tr ! k)
          \<longrightarrow> phase (tr ! j) = phase (tr ! i))"
proof -
  have s: "sorted (map (\<lambda>s. rank (phase s)) tr)"
    using trace_forward [OF orderly_mount assms] by simp
  have f: "phase (tr ! Suc i) = phase (tr ! i) \<or> rank (phase (tr ! i)) < rank (phase (tr ! Suc i))"
    if "Suc i < length tr" for i
  proof -
    have "rank (phase (tr ! i)) \<le> rank (phase (tr ! Suc i))"
      using sorted_nth_mono [OF s, of i "Suc i"] that by simp
    then show ?thesis using rank_inj [of "phase (tr ! Suc i)" "phase (tr ! i)"] by linarith
  qed
  have "phase (tr ! j) = phase (tr ! i)"
    if "i \<le> j" "j \<le> k" "k < length tr" "phase (tr ! i) = phase (tr ! k)" for i j k
  proof -
    have "rank (phase (tr ! i)) \<le> rank (phase (tr ! j))"
      using sorted_nth_mono [OF s, of i j] that by simp
    moreover have "rank (phase (tr ! j)) \<le> rank (phase (tr ! k))"
      using sorted_nth_mono [OF s, of j k] that by simp
    ultimately have "rank (phase (tr ! j)) = rank (phase (tr ! i))" using that(4) by simp
    then show ?thesis by (rule rank_inj)
  qed
  then show ?thesis using s f by blast
qed

theorem phases_forward_witness:
  "map_option (map phase)
     (trace example_props example_browser
        [Fire T_priceRoll, StripDone 1, StripDone 3, StripDone 4, Fire T_dayChange,
         Fire T_fadeText, Fire T_blocks, Fire T_done]
        (mount example_props example_browser (Some Map.empty)))
   = Some [Intro, PriceRoll, PriceRoll, PriceRoll, PriceRoll, DayChange, FadeText, Blocks, Done]
   \<and> sorted (map rank
        [Intro, PriceRoll, PriceRoll, PriceRoll, PriceRoll, DayChange, FadeText, Blocks, Done])"
proof -
  let ?es = "[Fire T_priceRoll, StripDone 1, StripDone 3, StripDone 4, Fire T_dayChange,
         Fire T_fadeText, Fire T_blocks, Fire T_done]"
  have e: "map_option (map phase)
     (trace example_props example_browser ?es
        (mount example_props example_browser (Some Map.empty)))
   = Some [Intro, PriceRoll, PriceRoll, PriceRoll, PriceRoll, DayChange, FadeText, Blocks, Done]"
    by (simp add: overlay_defs example_odometer example_grid)
  then obtain tr where tr: "trace example_props example_browser ?es
        (mount example_props example_browser (Some Map.empty)) = Some tr"
    and ph: "map phase tr
      = [Intro, PriceRoll, PriceRoll, PriceRoll, PriceRoll, DayChange, FadeText, Blocks, Done]"
    by auto
  have "map (\<lambda>s. rank (phase s)) tr = map rank (map phase tr)" by simp
  with phases_forward [OF tr] ph e show ?thesis by simp
qed

subsection \<open>A price that changes during the animation\<close>

lemma example_odometer_longer:
  "StockPriceOdometer (js ''$3.421'') =
     [StaticSpan 0 36, OdometerDigit 1 51 0 False, StaticSpan 2 46,
      OdometerDigit 3 52 1 False, OdometerDigit 4 50 2 False, OdometerDigit 5 49 3 True]"
  by (simp add: StockPriceOdometer_def parsePriceChars_def js_def test_digit_def)

text \<open>
  C7 fails on the code.  The timers of the phase effects are guarded by the phase they
  leave and cleared when the phase changes; the timer of \<open>handlePriceRollComplete\<close> sets
  \<open>dayChange\<close> whatever the phase is then.  The price \<open>$3.42\<close> rolls, its last strip
  (key 4) lands and schedules the timer; the parent then passes \<open>$3.421\<close>: the strips at
  the keys 1, 3 and 4 stay, a strip mounts at the key 5 and carries the callback.  The
  first timer fires (dayChange), then the fade begins (fadeText); the new strip lands
  during the fade and schedules the timer a second time; the blocks phase begins, the
  second timer fires, and the overlay is in the phase dayChange again.
\<close>

theorem price_change_reenters_dayChange:
  "map_option (map phase)
     (trace_prices example_props example_browser
        [(js ''$3.42'', Fire T_priceRoll), (js ''$3.42'', StripDone 1),
         (js ''$3.42'', StripDone 3), (js ''$3.42'', StripDone 4),
         (js ''$3.421'', Fire T_dayChange), (js ''$3.421'', Fire T_fadeText),
         (js ''$3.421'', StripDone 5), (js ''$3.421'', Fire T_blocks),
         (js ''$3.421'', Fire T_dayChange)]
        (mount example_props example_browser (Some Map.empty)))
   = Some [Intro, PriceRoll, PriceRoll, PriceRoll, PriceRoll, DayChange, FadeText, FadeText,
           Blocks, DayChange]
   \<and> rank DayChange < rank Blocks"
  by (simp add: overlay_defs example_odometer example_odometer_longer example_grid)

subsection \<open>The timer of handlePriceRollComplete\<close>

text \<open>
  C6 fails on the code.  The timers of the five effects are cleared by the cleanup of
  their effect: unmounting during the intro leaves no timer pending.  The timer that
  \<open>handlePriceRollComplete\<close> schedules has no cleanup: when the component is unmounted
  during the hold after the last digit has landed, the timer stays scheduled, and it
  still fires afterwards.
\<close>

theorem post_price_timer_survives_unmount:
  "map_option timers
     (run example_props example_browser [Unmount]
        (mount example_props example_browser (Some Map.empty))) = Some []
   \<and> map_option timers
     (run example_props example_browser [Fire T_priceRoll, StripDone 4, Unmount]
        (mount example_props example_browser (Some Map.empty))) = Some [T_dayChange]
   \<and> run example_props example_browser [Fire T_priceRoll, StripDone 4, Unmount, Fire T_dayChange]
        (mount example_props example_browser (Some Map.empty)) \<noteq> None"
  by (simp add: overlay_defs example_odometer example_grid)

end
